theory Spec2Isabelle
  imports Complex_Main "HOL-Library.Char_ord" "HOL-Library.List_Lexorder" "HOL-Library.AList"
begin

section \<open>Python values\<close>

text \<open>
  The exceptions the script can raise. \<open>ValueError\<close> carries its message, since the
  script's own checks are told apart by it; the others are the implicit failures of
  Python's operators (\<open>d[k]\<close>, \<open>x.get\<close>, \<open>a % b\<close>, \<open>next\<close>, \<open>xs[i]\<close>) and of
  the libraries (a file that is not YAML, a directory that cannot be made).
\<close>

datatype error = ValueError string | KeyError | TypeError | AttributeError | IndexError
  | ZeroDivisionError | StopIteration | UnboundLocalError | YAMLError | OSError

text \<open>Sequencing of fallible steps: the first exception ends the computation.\<close>

definition and_then :: "error + 'a \<Rightarrow> ('a \<Rightarrow> error + 'b) \<Rightarrow> error + 'b" where
  "and_then r f = (case r of Inl e \<Rightarrow> Inl e | Inr x \<Rightarrow> f x)"

subsection \<open>Strings\<close>

text \<open>\<open>s.startswith(p)\<close>, \<open>s.endswith(p)\<close> and \<open>p in s\<close> on strings.\<close>

definition startswith :: "string \<Rightarrow> string \<Rightarrow> bool" where
  "startswith s p = (take (length p) s = p)"

definition endswith :: "string \<Rightarrow> string \<Rightarrow> bool" where
  "endswith s p = (length p \<le> length s \<and> drop (length s - length p) s = p)"

fun str_contains :: "string \<Rightarrow> string \<Rightarrow> bool" where
  "str_contains [] p = (p = [])"
| "str_contains (c # cs) p = (startswith (c # cs) p \<or> str_contains cs p)"

text \<open>
  \<open>s.replace(old, new)\<close>: the occurrences of \<open>old\<close> are found from the left and do not
  overlap. With an empty \<open>old\<close> Python puts \<open>new\<close> around every character.
\<close>

fun replace_from :: "string \<Rightarrow> string \<Rightarrow> string \<Rightarrow> string" where
  "replace_from [] old new = []"
| "replace_from (c # cs) old new =
     (if startswith (c # cs) old then new @ replace_from (drop (length old - 1) cs) old new
      else c # replace_from cs old new)"

definition str_replace :: "string \<Rightarrow> string \<Rightarrow> string \<Rightarrow> string" where
  "str_replace s old new =
     (if old = [] then new @ concat (map (\<lambda>c. c # new) s) else replace_from s old new)"

text \<open>\<open>str(n)\<close> for an integer and \<open>s.rjust(width, fill)\<close>.\<close>

fun digits :: "nat \<Rightarrow> string" where
  "digits n = (if n < 10 then [''0123456789'' ! n] else digits (n div 10) @ [''0123456789'' ! (n mod 10)])"

declare digits.simps [simp del]

definition str_of_int :: "int \<Rightarrow> string" where
  "str_of_int i = (if i < 0 then CHR ''-'' # digits (nat (- i)) else digits (nat i))"

definition rjust :: "string \<Rightarrow> nat \<Rightarrow> char \<Rightarrow> string" where
  "rjust s width fill = replicate (width - length s) fill @ s"

text \<open>\<open>os.path.join(a, b)\<close> on a POSIX system.\<close>

definition os_path_join :: "string \<Rightarrow> string \<Rightarrow> string" where
  "os_path_join a b =
     (if startswith b ''/'' then b
      else if a = [] \<or> endswith a ''/'' then a @ b
      else a @ ''/'' @ b)"

subsection \<open>Parsed YAML\<close>

text \<open>
  What the safe loader returns for a descriptor: scalars, lists and mappings. A mapping
  keeps its entries in insertion order, as a Python \<open>dict\<close> does; its keys are strings
  or integers and are pairwise different.
\<close>

datatype key = KStr string | KInt int

datatype yaml = YNull | YBool bool | YInt int | YStr string
  | YList "yaml list" | YDict "(key \<times> yaml) list"

text \<open>Python's truth value of an object, as \<open>not x\<close> reads it.\<close>

fun truthy :: "yaml \<Rightarrow> bool" where
  "truthy YNull = False"
| "truthy (YBool b) = b"
| "truthy (YInt i) = (i \<noteq> 0)"
| "truthy (YStr s) = (s \<noteq> [])"
| "truthy (YList xs) = (xs \<noteq> [])"
| "truthy (YDict kvs) = (kvs \<noteq> [])"

text \<open>
  The position a sequence of \<open>len\<close> elements is read at for the index \<open>i\<close>: from the
  front when \<open>i\<close> is not negative, from the back otherwise, \<open>IndexError\<close> outside.
\<close>

definition py_index :: "int \<Rightarrow> nat \<Rightarrow> error + nat" where
  "py_index i len =
     (if 0 \<le> i \<and> i < int len then Inr (nat i)
      else if i < 0 \<and> - int len \<le> i then Inr (nat (int len + i))
      else Inl IndexError)"

text \<open>\<open>d[k]\<close>, \<open>d.get(k, dflt)\<close>, \<open>k in d\<close> and \<open>d[k] = v\<close>.\<close>

fun getitem :: "yaml \<Rightarrow> key \<Rightarrow> error + yaml" where
  "getitem (YDict kvs) k = (case map_of kvs k of None \<Rightarrow> Inl KeyError | Some v \<Rightarrow> Inr v)"
| "getitem (YList xs) (KInt i) = and_then (py_index i (length xs)) (\<lambda>j. Inr (xs ! j))"
| "getitem _ _ = Inl TypeError"

fun dict_get :: "yaml \<Rightarrow> key \<Rightarrow> yaml \<Rightarrow> error + yaml" where
  "dict_get (YDict kvs) k dflt = Inr (case map_of kvs k of None \<Rightarrow> dflt | Some v \<Rightarrow> v)"
| "dict_get _ k dflt = Inl AttributeError"

fun setitem :: "yaml \<Rightarrow> key \<Rightarrow> yaml \<Rightarrow> error + yaml" where
  "setitem (YDict kvs) k v = Inr (YDict (AList.update k v kvs))"
| "setitem (YList xs) (KInt i) v =
     and_then (py_index i (length xs)) (\<lambda>j. Inr (YList (xs[j := v])))"
| "setitem _ _ _ = Inl TypeError"

text \<open>\<open>d.items()\<close> of a mapping.\<close>

fun items :: "yaml \<Rightarrow> error + (key \<times> yaml) list" where
  "items (YDict kvs) = Inr kvs"
| "items _ = Inl AttributeError"

text \<open>An integer operand of \<open>+\<close> or \<open>%\<close>; \<open>bool\<close> is a subclass of \<open>int\<close>.\<close>

fun as_int :: "yaml \<Rightarrow> error + int" where
  "as_int (YInt i) = Inr i"
| "as_int (YBool b) = Inr (if b then 1 else 0)"
| "as_int _ = Inl TypeError"

text \<open>\<open>a % b\<close> on integers: the result has the sign of \<open>b\<close>, and \<open>b = 0\<close> raises.\<close>

definition py_mod :: "int \<Rightarrow> int \<Rightarrow> error + int" where
  "py_mod a b = (if b = 0 then Inl ZeroDivisionError else Inr (a mod b))"

section \<open>resolve_strings\<close>

text \<open>
  What \<open>pathlib\<close> answers depends on the machine: the home directory and the working
  directory (and its symbolic links). The two operations are parameters;
  \<open>PurePath(val).is_absolute()\<close> is decided by the string alone on POSIX.
\<close>

record pathlib =
  expanduser :: "string \<Rightarrow> string"
  resolve :: "string \<Rightarrow> string"

definition is_absolute :: "string \<Rightarrow> bool" where
  "is_absolute val = startswith val ''/''"

text \<open>The \<open>elif isinstance(val, str)\<close> branch of the loop body: the new value of a string entry.\<close>

definition resolve_string :: "pathlib \<Rightarrow> string \<Rightarrow> key \<Rightarrow> string \<Rightarrow> string" where
  "resolve_string env experiment_name k val0 =
     (let val = str_replace val0 ''{experiment_name}'' experiment_name
      in case k of
           KStr ks \<Rightarrow>
             if str_contains ks ''path'' then
               (if is_absolute val then val
                else if startswith val ''~'' then expanduser env val
                else resolve env val)
             else val
         | KInt _ \<Rightarrow> val)"

text \<open>
  The walk. The source updates \<open>data\<close> in place, entry by entry, under the key the
  iterator gave (\<open>enumerate(data)\<close> for a list, \<open>data.items()\<close> for a mapping); the model
  returns the updated container. Entries that are neither containers nor strings are
  skipped by the source and stay as they are.
\<close>

function (sequential) resolve_walk :: "pathlib \<Rightarrow> string \<Rightarrow> yaml \<Rightarrow> yaml"
  and resolve_entry :: "pathlib \<Rightarrow> string \<Rightarrow> key \<Rightarrow> yaml \<Rightarrow> yaml" where
  "resolve_walk env name (YList xs) =
     YList (map (\<lambda>(i, val). resolve_entry env name (KInt (int i)) val) (enumerate 0 xs))"
| "resolve_walk env name (YDict kvs) =
     YDict (map (\<lambda>(k, val). (k, resolve_entry env name k val)) kvs)"
| "resolve_walk env name y = y"
| "resolve_entry env name k (YList xs) = resolve_walk env name (YList xs)"
| "resolve_entry env name k (YDict kvs) = resolve_walk env name (YDict kvs)"
| "resolve_entry env name k (YStr s) = YStr (resolve_string env name k s)"
| "resolve_entry env name k y = y"
  by pat_completeness auto

lemma size_yaml_elem: "x \<in> set xs \<Longrightarrow> size (x::yaml) < Suc (size_list size xs)"
  by (induction xs) auto

lemma size_yaml_entry:
  "(k, v) \<in> set kvs \<Longrightarrow> size (v::yaml) < Suc (size_list (size_prod (\<lambda>_. 0) size) kvs)"
  by (induction kvs) auto

termination resolve_walk
proof (relation "measure (\<lambda>x. case x of Inl (env, name, y) \<Rightarrow> 2 * size y
                                      | Inr (env, name, k, y) \<Rightarrow> 2 * size y + 1)", goal_cases)
  case 1
  show ?case by simp
next
  case (2 env name xs p i val)
  then have "val \<in> set xs" by (auto simp: in_set_enumerate_eq)
  from size_yaml_elem[OF this] show ?case by simp
next
  case (3 env name kvs p k val)
  then have "(k, val) \<in> set kvs" by simp
  from size_yaml_entry[OF this] show ?case by simp
next
  case 4
  show ?case by simp
next
  case 5
  show ?case by simp
qed

text \<open>
  The entry point takes a list or a mapping; on anything else \<open>data.items()\<close> raises.
\<close>

definition resolve_strings :: "pathlib \<Rightarrow> yaml \<Rightarrow> string \<Rightarrow> error + yaml" where
  "resolve_strings env data experiment_name =
     (case data of
        YList xs \<Rightarrow> Inr (resolve_walk env experiment_name data)
      | YDict kvs \<Rightarrow> Inr (resolve_walk env experiment_name data)
      | _ \<Rightarrow> Inl AttributeError)"

section \<open>The session context\<close>

subsection \<open>TensorFlow values\<close>

text \<open>
  A tensor is the list of its elements and a batch is the tuple of tensors a dataset
  yields; rounding is not modelled, the elements are real numbers. Under a distribution
  strategy a value is either an ordinary one or has one component per replica (it then
  has the attribute \<open>values\<close>).
\<close>

type_synonym tensor = "real list"
type_synonym batch = "tensor list"

datatype 'a dvalue = Local 'a | PerReplica "'a list"

text \<open>The two strategies \<open>load_experiment\<close> chooses from, with their devices.\<close>

datatype strategy = OneDeviceStrategy string | MirroredStrategy "string list"

text \<open>
  \<open>strategy.reduce(tf.distribute.ReduceOp.MEAN, value, axis=None)\<close>: an ordinary value
  is returned as it is, a per-replica value is summed and divided by the number of its
  components (integer division on an integer tensor).
\<close>

fun reduce_mean :: "'a::{semiring_1,divide} dvalue \<Rightarrow> 'a" where
  "reduce_mean (Local v) = v"
| "reduce_mean (PerReplica vs) = sum_list vs div of_nat (length vs)"

text \<open>
  A Keras optimizer: its iteration counter (a variable, mirrored on every replica under
  \<open>MirroredStrategy\<close>), the configuration \<open>get_config\<close> returns, and its slot
  variables (for Adam the two moment estimates it keeps for every variable it has
  updated; there are none before its first update). The counter is an \<open>int64\<close>
  variable that starts at 0 and only ever goes up by one: it is the number of updates
  made, as long as there were fewer than \<open>2 ^ 63\<close> of them.
\<close>

record optimizer =
  iterations :: "nat dvalue"
  get_config :: yaml
  slots :: "real list"

text \<open>
  A model of the Model Provider: what it computes from the current values of the
  variables and a list of input tensors, and which variables it trains (their positions
  among the session's variables).
\<close>

record model_handle =
  call :: "real list \<Rightarrow> tensor list \<Rightarrow> tensor"
  trainable_variables :: "nat list"

text \<open>
  The functions \<open>build_strategic_training_model\<close> and
  \<open>build_strategic_validation_model\<close> return. A training step reads and updates the
  optimizer it was built with and the variables; a validation step only reads the
  variables.
\<close>

type_synonym training_fn =
  "optimizer \<Rightarrow> real list \<Rightarrow> batch dvalue \<Rightarrow> error + (real \<times> optimizer \<times> real list)"

type_synonym validation_fn =
  "real list \<Rightarrow> batch dvalue \<Rightarrow> error + (tensor dvalue \<times> tensor dvalue)"

text \<open>
  \<open>context['models']\<close>: the provider's \<open>extensions\<close> and \<open>principals\<close> and the two
  mappings \<open>build_models\<close> adds. A training function is stored with the name of the
  optimizer object it closes over.
\<close>

record models =
  extensions :: "(key \<times> model_handle) list"
  principals :: "(key \<times> model_handle) list"
  strategic_extensions :: "(key \<times> key \<times> training_fn) list"
  strategic_principals :: "(key \<times> validation_fn) list"

text \<open>
  What the session writes: log records (a format with its arguments), and the summaries
  of the scribe. A summary has the tag \<open>kind[name]\<close>, a value and the step.
\<close>

datatype log_arg = AStr string | AKey key | AInt int | AReal real | AYaml yaml
  | AStrategy strategy | ADevices "string list"

datatype summary = Scalar string log_arg real int | Picture string log_arg tensor int

text \<open>
  The context dictionary; the field \<open>ctx_x\<close> is the entry \<open>context['x']\<close>. The entries
  \<open>load_experiment\<close> returns are always there; \<open>datasets\<close>, \<open>models\<close> and
  \<open>optimizers\<close> are added later, and reading them before raises \<open>KeyError\<close>. A
  dataset entry is an iterator: the batches it has not yielded yet. \<open>ctx_variables\<close>
  holds the current values of the variables of all models, which live in TensorFlow and
  not in the dictionary.
\<close>

record session_context =
  ctx_experiment :: yaml
  ctx_strategy :: strategy
  ctx_logger :: "(string \<times> log_arg list) list"
  ctx_scribe :: "string \<times> summary list"
  ctx_global_step :: yaml
  ctx_datasets :: "(key \<times> batch dvalue list) list option"
  ctx_models :: "models option"
  ctx_optimizers :: "(key \<times> optimizer) list option"
  ctx_variables :: "real list"

definition ctx_get :: "'a option \<Rightarrow> error + 'a" where
  "ctx_get entry = (case entry of None \<Rightarrow> Inl KeyError | Some v \<Rightarrow> Inr v)"

text \<open>\<open>d[k]\<close> on the mappings of the context that are not YAML.\<close>

definition lookup :: "('k \<times> 'v) list \<Rightarrow> 'k \<Rightarrow> error + 'v" where
  "lookup d k = (case map_of d k of None \<Rightarrow> Inl KeyError | Some v \<Rightarrow> Inr v)"

section \<open>global_step\<close>

text \<open>The loop over \<open>context['optimizers'].values()\<close>, from the current \<open>step\<close>.\<close>

fun most_active :: "int \<Rightarrow> (key \<times> optimizer) list \<Rightarrow> int" where
  "most_active step [] = step"
| "most_active step ((name, optimizer) # rest) =
     (let num_iterations = reduce_mean (iterations optimizer)
      in most_active (max step (int num_iterations)) rest)"

definition global_step :: "session_context \<Rightarrow> error + int" where
  "global_step ctx =
     and_then (ctx_get (ctx_optimizers ctx)) (\<lambda>opts.
     let step = most_active 0 opts
     in and_then (as_int (ctx_global_step ctx)) (\<lambda>base. Inr (step + base)))"

section \<open>find_latest_checkpoint\<close>

text \<open>
  The file system: a path names a file, a directory (with its entries in the order
  \<open>os.listdir\<close> returns them) or nothing.
\<close>

datatype content = Yaml yaml | Weights "real list" | Data

datatype node = File content | Dir "string list"

type_synonym filesystem = "string \<Rightarrow> node option"

definition isdir :: "filesystem \<Rightarrow> string \<Rightarrow> bool" where
  "isdir fs path = (case fs path of Some (Dir _) \<Rightarrow> True | _ \<Rightarrow> False)"

definition isfile :: "filesystem \<Rightarrow> string \<Rightarrow> bool" where
  "isfile fs path = (case fs path of Some (File _) \<Rightarrow> True | _ \<Rightarrow> False)"

definition listdir :: "filesystem \<Rightarrow> string \<Rightarrow> error + string list" where
  "listdir fs path = (case fs path of Some (Dir names) \<Rightarrow> Inr names | _ \<Rightarrow> Inl OSError)"

text \<open>\<open>sorted(names)\<close> compares strings character by character, by code point.\<close>

definition find_latest_checkpoint :: "filesystem \<Rightarrow> string \<Rightarrow> error + string" where
  "find_latest_checkpoint fs path =
     (if \<not> isdir fs path then Inr path
      else and_then (listdir fs path) (\<lambda>names.
        let names = filter (\<lambda>name. endswith name ''_checkpoint.yaml'') names;
            names = sort names
        in if names \<noteq> [] then Inr (os_path_join path (last names))
           else Inl (ValueError (''Found no checkpoint within '' @ path))))"

section \<open>load_experiment\<close>

text \<open>\<open>s in x\<close> for a string \<open>s\<close>: a key of a mapping, an element of a list, a substring.\<close>

fun str_in :: "string \<Rightarrow> yaml \<Rightarrow> error + bool" where
  "str_in s (YDict kvs) = Inr (map_of kvs (KStr s) \<noteq> None)"
| "str_in s (YList xs) = Inr (YStr s \<in> set xs)"
| "str_in s (YStr t) = Inr (str_contains t s)"
| "str_in s _ = Inl TypeError"

text \<open>\<open>os.makedirs(path, exist_ok=True)\<close>.\<close>

definition makedirs :: "filesystem \<Rightarrow> yaml \<Rightarrow> error + filesystem" where
  "makedirs fs path =
     (case path of
        YStr p \<Rightarrow>
          (case fs p of
             None \<Rightarrow> Inr (fs(p \<mapsto> Dir []))
           | Some (Dir names) \<Rightarrow> Inr fs
           | Some (File c) \<Rightarrow> Inl OSError)
      | _ \<Rightarrow> Inl TypeError)"

text \<open>
  The strategy chosen from the logical GPUs: mirrored over more than one, otherwise on
  \<open>gpus[0]\<close>, which raises without a GPU.
\<close>

definition choose_strategy :: "string list \<Rightarrow> error + strategy" where
  "choose_strategy gpus =
     (if length gpus > 1 then Inr (MirroredStrategy gpus)
      else case gpus of [] \<Rightarrow> Inl IndexError | gpu # _ \<Rightarrow> Inr (OneDeviceStrategy gpu))"

text \<open>
  The function, on a file system \<open>fs\<close> and the machine's GPUs. It returns the context
  and the file system, in which the checkpoint directory now exists.
\<close>

definition load_experiment ::
  "pathlib \<Rightarrow> string list \<Rightarrow> filesystem \<Rightarrow> string \<Rightarrow> error + (session_context \<times> filesystem)" where
  "load_experiment env gpus fs path =
     (case fs path of
        Some (File c) \<Rightarrow>
          (case c of
             Yaml experiment \<Rightarrow>
               and_then (str_in ''name'' experiment) (\<lambda>has_name.
               if \<not> has_name then Inl (ValueError ''An experiment needs a name.'') else
               and_then (dict_get experiment (KStr ''summary'') (YDict [])) (\<lambda>summary.
               and_then (dict_get summary (KStr ''path'') YNull) (\<lambda>summary_path.
               if \<not> truthy summary_path then Inl (ValueError ''An experiment needs a scribe.'') else
               and_then (dict_get experiment (KStr ''checkpoint'') (YDict [])) (\<lambda>checkpoint.
               and_then (dict_get checkpoint (KStr ''path'') YNull) (\<lambda>checkpoint_path.
               if \<not> truthy checkpoint_path
               then Inl (ValueError ''An experiment needs a dir for checkpoint'') else
               and_then (str_in ''global_step'' experiment) (\<lambda>has_step.
               and_then (if \<not> has_step then setitem experiment (KStr ''global_step'') (YInt 0)
                         else Inr experiment) (\<lambda>experiment.
               and_then (getitem experiment (KStr ''name'')) (\<lambda>name.
               and_then (case name of YStr n \<Rightarrow> resolve_strings env experiment n
                                    | _ \<Rightarrow> Inl TypeError) (\<lambda>experiment.
               and_then (getitem experiment (KStr ''checkpoint'')) (\<lambda>checkpoint.
               and_then (getitem checkpoint (KStr ''path'')) (\<lambda>checkpoint_path.
               and_then (makedirs fs checkpoint_path) (\<lambda>fs.
               and_then (getitem experiment (KStr ''summary'')) (\<lambda>summary.
               and_then (getitem summary (KStr ''path'')) (\<lambda>summary_path.
               and_then (case summary_path of YStr p \<Rightarrow> Inr (p, []) | _ \<Rightarrow> Inl TypeError) (\<lambda>scribe.
               and_then (choose_strategy gpus) (\<lambda>strategy.
               and_then (getitem experiment (KStr ''global_step'')) (\<lambda>step.
               Inr (\<lparr>ctx_experiment = experiment,
                     ctx_strategy = strategy,
                     ctx_logger = [(''global step: %s'', [AYaml step]),
                               (''summary: %s'', [AYaml summary_path]),
                               (''strategy %s: %s'', [AStrategy strategy, ADevices gpus])],
                     ctx_scribe = scribe,
                     ctx_global_step = step,
                     ctx_datasets = None, ctx_models = None, ctx_optimizers = None,
                     ctx_variables = []\<rparr>, fs))))))))))))))))))
           | _ \<Rightarrow> Inl YAMLError)
      | _ \<Rightarrow> Inl (ValueError (''Invalid experiment path: '' @ path)))"

section \<open>Reading a descriptor along a path\<close>

text \<open>
  \<open>data[k1][k2]...\<close>: the value reached from \<open>data\<close> by a sequence of keys and indices.
  The properties of the descriptor are stated with it.
\<close>

fun descend :: "yaml \<Rightarrow> key list \<Rightarrow> error + yaml" where
  "descend y [] = Inr y"
| "descend y (k # ks) = and_then (getitem y k) (\<lambda>v. descend v ks)"

text \<open>\<open>sep.join(parts)\<close>.\<close>

fun str_join :: "string \<Rightarrow> string list \<Rightarrow> string" where
  "str_join sep [] = []"
| "str_join sep [a] = a"
| "str_join sep (a # b # rest) = a @ sep @ str_join sep (b # rest)"

text \<open>A result that is the failure of one of the script's own checks.\<close>

definition config_error :: "error + 'a \<Rightarrow> bool" where
  "config_error r = (case r of Inl (ValueError msg) \<Rightarrow> True | _ \<Rightarrow> False)"

section \<open>TensorFlow operations\<close>

text \<open>
  What the script takes from TensorFlow and Keras and cannot be read from its source:
  automatic differentiation (\<open>tape.gradient\<close> of a scalar computed from the variables,
  with respect to some of them), the update an optimizer makes to one variable (from its
  configuration, its iteration count, its slot variables, the position of the variable,
  its value and its gradient),
  the update it makes to its slot variables (from its configuration, its iteration
  count, the slot variables and the gradients), the configuration a Keras optimizer
  reports for the one it was built from, and the image metrics of \<open>validate\<close>, already
  averaged.
\<close>

record tensorflow =
  tape_gradient :: "(real list \<Rightarrow> real) \<Rightarrow> real list \<Rightarrow> nat list \<Rightarrow> real list"
  update_rule :: "yaml \<Rightarrow> nat \<Rightarrow> real list \<Rightarrow> nat \<Rightarrow> real \<Rightarrow> real \<Rightarrow> real"
  update_slots :: "yaml \<Rightarrow> nat \<Rightarrow> real list \<Rightarrow> real list \<Rightarrow> real list"
  from_config :: "yaml \<Rightarrow> yaml"
  psnr :: "tensor \<Rightarrow> tensor \<Rightarrow> real"
  ssim :: "tensor \<Rightarrow> tensor \<Rightarrow> real"
  composite :: "tensor \<Rightarrow> tensor \<Rightarrow> tensor"

text \<open>The first failure among the results of the replicas, or all their values.\<close>

fun all_results :: "(error + 'a) list \<Rightarrow> error + 'a list" where
  "all_results [] = Inr []"
| "all_results (r # rs) =
     and_then r (\<lambda>x. and_then (all_results rs) (\<lambda>xs. Inr (x # xs)))"

text \<open>
  \<open>strategy.experimental_run_v2(fn, args=(data,))\<close>. \<open>OneDeviceStrategy\<close> calls \<open>fn\<close>
  on the value and returns its result as it is. \<open>MirroredStrategy\<close> calls \<open>fn\<close> once for
  each replica, on that replica's component of a per-replica value (on the value itself
  when it is an ordinary one), and returns a per-replica result.
\<close>

fun experimental_run_v2 ::
  "strategy \<Rightarrow> ('a \<Rightarrow> error + 'b) \<Rightarrow> 'a dvalue \<Rightarrow> error + 'b dvalue" where
  "experimental_run_v2 (OneDeviceStrategy device) fn (Local x) =
     and_then (fn x) (\<lambda>y. Inr (Local y))"
| "experimental_run_v2 (OneDeviceStrategy device) fn (PerReplica xs) = Inl TypeError"
| "experimental_run_v2 (MirroredStrategy devices) fn (PerReplica xs) =
     and_then (all_results (map fn xs)) (\<lambda>ys. Inr (PerReplica ys))"
| "experimental_run_v2 (MirroredStrategy devices) fn (Local x) =
     and_then (all_results (map fn (replicate (length devices) x))) (\<lambda>ys. Inr (PerReplica ys))"

text \<open>A returned tuple is regrouped: a pair of per-replica values, not per-replica pairs.\<close>

fun regroup :: "('a \<times> 'b) dvalue \<Rightarrow> 'a dvalue \<times> 'b dvalue" where
  "regroup (Local (a, b)) = (Local a, Local b)"
| "regroup (PerReplica ps) = (PerReplica (map fst ps), PerReplica (map snd ps))"

text \<open>
  \<open>optimizer.apply_gradients(zip(gradients, variables))\<close> under a strategy: the gradients
  of the replicas are summed, every listed variable is updated once with its summed
  gradient, the slot variables are updated with the summed gradients, and the iteration
  counter goes up by one.
\<close>

fun sum_over_replicas :: "real list list \<Rightarrow> real list" where
  "sum_over_replicas [] = []"
| "sum_over_replicas [g] = g"
| "sum_over_replicas (g # gs) = map2 (+) g (sum_over_replicas gs)"

fun update_variables ::
  "(nat \<Rightarrow> real \<Rightarrow> real \<Rightarrow> real) \<Rightarrow> (real \<times> nat) list \<Rightarrow> real list \<Rightarrow> real list" where
  "update_variables rule [] vars = vars"
| "update_variables rule ((g, i) # rest) vars =
     update_variables rule rest (vars[i := rule i (vars ! i) g])"

fun components :: "'a dvalue \<Rightarrow> 'a list" where
  "components (Local x) = [x]"
| "components (PerReplica xs) = xs"

definition apply_gradients ::
  "tensorflow \<Rightarrow> optimizer \<Rightarrow> real list dvalue \<Rightarrow> nat list \<Rightarrow> real list
     \<Rightarrow> optimizer \<times> real list" where
  "apply_gradients tf optimizer gradients trainable vars =
     (let total = sum_over_replicas (components gradients);
          count = reduce_mean (iterations optimizer);
          rule = update_rule tf (get_config optimizer) count (slots optimizer)
      in (optimizer\<lparr>iterations := map_dvalue Suc (iterations optimizer),
                    slots := update_slots tf (get_config optimizer) count (slots optimizer) total\<rparr>,
          update_variables rule (zip total trainable) vars))"

section \<open>build_optimizer\<close>

text \<open>\<open>s.lower()\<close>, character by character.\<close>

definition lower_char :: "char \<Rightarrow> char" where
  "lower_char c =
     (case map_of (zip ''ABCDEFGHIJKLMNOPQRSTUVWXYZ'' ''abcdefghijklmnopqrstuvwxyz'') c of
        None \<Rightarrow> c
      | Some l \<Rightarrow> l)"

text \<open>
  Only \<open>adam\<close> binds \<open>optimizer_class\<close>. The counter of the new optimizer is 0, on every
  replica of the strategy in whose scope it is made, and it has no slot variables yet.
\<close>

definition new_counter :: "strategy \<Rightarrow> nat dvalue" where
  "new_counter strategy =
     (case strategy of
        OneDeviceStrategy device \<Rightarrow> Local 0
      | MirroredStrategy devices \<Rightarrow> PerReplica (replicate (length devices) 0))"

definition build_optimizer :: "tensorflow \<Rightarrow> strategy \<Rightarrow> yaml \<Rightarrow> error + optimizer" where
  "build_optimizer tf strategy config =
     and_then (getitem config (KStr ''optimizer'')) (\<lambda>kind.
     and_then (case kind of YStr s \<Rightarrow> Inr (map lower_char s = ''adam'')
                          | _ \<Rightarrow> Inl AttributeError) (\<lambda>is_adam.
     and_then (str_in ''learning_rate'' config) (\<lambda>has_rate.
     and_then (if has_rate
               then and_then (getitem config (KStr ''learning_rate''))
                      (\<lambda>rate. Inr (YDict [(KStr ''learning_rate'', rate)]))
               else Inr (YDict [])) (\<lambda>optimizer_config.
     and_then (dict_get config (KStr ''config'') (YDict [])) (\<lambda>given.
     let optimizer_config = (if truthy given then given else optimizer_config)
     in if \<not> is_adam then Inl UnboundLocalError
        else Inr \<lparr>iterations = new_counter strategy,
                  get_config = from_config tf optimizer_config,
                  slots = []\<rparr>)))))"

section \<open>build_strategic_training_model\<close>

text \<open>\<open>[inputs[index] for index in index_inputs]\<close> and \<open>inputs[index]\<close>.\<close>

definition pick :: "'a list \<Rightarrow> yaml \<Rightarrow> error + 'a" where
  "pick inputs index =
     and_then (as_int index) (\<lambda>i.
     and_then (py_index i (length inputs)) (\<lambda>j. Inr (inputs ! j)))"

definition rearrange :: "'a list \<Rightarrow> yaml \<Rightarrow> error + 'a list" where
  "rearrange inputs index_inputs =
     (case index_inputs of
        YList indices \<Rightarrow> all_results (map (pick inputs) indices)
      | _ \<Rightarrow> Inl TypeError)"

text \<open>
  \<open>train_one_step\<close> on one replica, up to the call of \<open>apply_gradients\<close>: the loss and
  the gradients the replica hands to the optimizer.
\<close>

definition train_one_step ::
  "tensorflow \<Rightarrow> model_handle \<Rightarrow> yaml \<Rightarrow> nat \<Rightarrow> real list \<Rightarrow> batch
     \<Rightarrow> error + (real \<times> real list)" where
  "train_one_step tf base_model index_inputs num_replicas vars inputs =
     and_then (rearrange inputs index_inputs) (\<lambda>new_inputs.
     if num_replicas = 0 then Inl ZeroDivisionError
     else
       let scaled_loss = (\<lambda>vs. sum_list (call base_model vs new_inputs) * (1 / real num_replicas));
           loss = scaled_loss vars;
           gradients = tape_gradient tf scaled_loss vars (trainable_variables base_model)
       in Inr (loss, gradients))"

text \<open>
  \<open>train_one_step_in_graph\<close>, the function returned: the step on every replica, the
  one merged update of the optimizer, and the mean of the replicas' losses.
\<close>

definition build_strategic_training_model ::
  "tensorflow \<Rightarrow> strategy \<Rightarrow> model_handle \<Rightarrow> yaml \<Rightarrow> nat \<Rightarrow> training_fn" where
  "build_strategic_training_model tf strategy base_model index_inputs num_replicas =
     (\<lambda>optimizer vars data.
        and_then (experimental_run_v2 strategy
                    (train_one_step tf base_model index_inputs num_replicas vars) data)
          (\<lambda>results.
             let (optimizer', vars') =
                   apply_gradients tf optimizer (map_dvalue snd results)
                     (trainable_variables base_model) vars;
                 losses = map_dvalue fst results
             in Inr (reduce_mean losses, optimizer', vars')))"

section \<open>build_strategic_validation_model\<close>

definition validate_one_step ::
  "model_handle \<Rightarrow> yaml \<Rightarrow> yaml \<Rightarrow> real list \<Rightarrow> batch \<Rightarrow> error + (tensor \<times> tensor)" where
  "validate_one_step base_model index_inputs index_hd_images vars inputs =
     and_then (rearrange inputs index_inputs) (\<lambda>new_inputs.
     and_then (pick inputs index_hd_images) (\<lambda>hd_images.
     let outputs = call base_model vars new_inputs
     in Inr (outputs, hd_images)))"

definition build_strategic_validation_model ::
  "strategy \<Rightarrow> model_handle \<Rightarrow> yaml \<Rightarrow> yaml \<Rightarrow> validation_fn" where
  "build_strategic_validation_model strategy base_model index_inputs index_hd_images =
     (\<lambda>vars data.
        and_then (experimental_run_v2 strategy
                    (validate_one_step base_model index_inputs index_hd_images vars) data)
          (\<lambda>results. Inr (regroup results)))"

section \<open>Loops over the entries of the descriptor\<close>

text \<open>
  A \<open>for\<close> loop whose body updates the state and may raise; \<open>continue\<close> is a body that
  returns the state as it is.
\<close>

fun for_each :: "('a \<Rightarrow> 's \<Rightarrow> error + 's) \<Rightarrow> 'a list \<Rightarrow> 's \<Rightarrow> error + 's" where
  "for_each body [] s = Inr s"
| "for_each body (x # xs) s = and_then (body x s) (for_each body xs)"

text \<open>A YAML value used as a key of a mapping; lists and mappings cannot be hashed.\<close>

fun as_key :: "yaml \<Rightarrow> error + key" where
  "as_key (YStr s) = Inr (KStr s)"
| "as_key (YInt i) = Inr (KInt i)"
| "as_key (YBool b) = Inr (KInt (if b then 1 else 0))"
| "as_key YNull = Inl KeyError"
| "as_key _ = Inl TypeError"

text \<open>What \<open>for x in value\<close> iterates over.\<close>

fun iterate :: "yaml \<Rightarrow> error + yaml list" where
  "iterate (YList xs) = Inr xs"
| "iterate (YDict kvs) =
     Inr (map (\<lambda>(k, v). case k of KStr s \<Rightarrow> YStr s | KInt i \<Rightarrow> YInt i) kvs)"
| "iterate (YStr s) = Inr (map (\<lambda>c. YStr [c]) s)"
| "iterate _ = Inl TypeError"

text \<open>\<open>next(dataset)\<close> on the iterator stored under \<open>name\<close>.\<close>

definition next_batch ::
  "(key \<times> batch dvalue list) list \<Rightarrow> key
     \<Rightarrow> error + (batch dvalue \<times> (key \<times> batch dvalue list) list)" where
  "next_batch dss name =
     and_then (lookup dss name) (\<lambda>remaining.
     case remaining of
       [] \<Rightarrow> Inl StopIteration
     | data # rest \<Rightarrow> Inr (data, AList.update name rest dss))"

text \<open>The gate of every scheduled unit: \<open>step % cycle != 0\<close>.\<close>

definition off_cycle :: "int \<Rightarrow> yaml \<Rightarrow> error + bool" where
  "off_cycle step cycle =
     and_then (as_int cycle) (\<lambda>c. and_then (py_mod step c) (\<lambda>m. Inr (m \<noteq> 0)))"

section \<open>build_models\<close>

text \<open>
  The Model Provider, \<open>importlib.import_module(name).build_models(**parameters)\<close>: the
  extension models, the principal models and the initial values of their variables.
\<close>

type_synonym provider =
  "yaml \<Rightarrow> yaml \<Rightarrow> error + ((key \<times> model_handle) list \<times> (key \<times> model_handle) list \<times> real list)"

text \<open>The body of the loop over \<open>optimizers_config.items()\<close>.\<close>

definition build_training ::
  "tensorflow \<Rightarrow> nat \<Rightarrow> key \<times> yaml \<Rightarrow> session_context \<Rightarrow> error + session_context" where
  "build_training tf num_gpus entry ctx =
     (case entry of (optimizer_name, config) \<Rightarrow>
     and_then (getitem config (KStr ''extension_model'')) (\<lambda>model_name.
     and_then (as_key model_name) (\<lambda>model_name.
     and_then (ctx_get (ctx_models ctx)) (\<lambda>ms.
     and_then (lookup (extensions ms) model_name) (\<lambda>model.
     and_then (getitem config (KStr ''dataset'')) (\<lambda>dataset_config.
     and_then (getitem dataset_config (KStr ''name'')) (\<lambda>dataset_name.
     and_then (as_key dataset_name) (\<lambda>dataset_name.
     and_then (ctx_get (ctx_datasets ctx)) (\<lambda>dss.
     and_then (lookup dss dataset_name) (\<lambda>dataset.
     and_then (build_optimizer tf (ctx_strategy ctx) config) (\<lambda>optimizer.
     and_then (ctx_get (ctx_optimizers ctx)) (\<lambda>opts.
     and_then (getitem dataset_config (KStr ''input_indices'')) (\<lambda>input_indices.
     let strategic_model =
           build_strategic_training_model tf (ctx_strategy ctx) model input_indices num_gpus
     in and_then (next_batch dss dataset_name) (\<lambda>(data, dss).
        and_then (strategic_model optimizer (ctx_variables ctx) data) (\<lambda>(loss, optimizer, vars).
        Inr (ctx\<lparr>ctx_datasets := Some dss,
                 ctx_optimizers := Some (AList.update optimizer_name optimizer opts),
                 ctx_variables := vars,
                 ctx_models := Some (ms\<lparr>strategic_extensions :=
                     AList.update model_name (optimizer_name, strategic_model)
                       (strategic_extensions ms)\<rparr>)\<rparr>))))))))))))))))"

text \<open>The body of the loop over the validators.\<close>

definition build_validation :: "yaml \<Rightarrow> session_context \<Rightarrow> error + session_context" where
  "build_validation validator ctx =
     and_then (getitem validator (KStr ''principal_model'')) (\<lambda>model_name.
     and_then (as_key model_name) (\<lambda>model_name.
     and_then (ctx_get (ctx_models ctx)) (\<lambda>ms.
     and_then (lookup (principals ms) model_name) (\<lambda>model.
     and_then (getitem validator (KStr ''dataset'')) (\<lambda>dataset_config.
     and_then (getitem dataset_config (KStr ''input_indices'')) (\<lambda>input_indices.
     and_then (getitem dataset_config (KStr ''hd_image_index'')) (\<lambda>hd_image_index.
     let strategic_model =
           build_strategic_validation_model (ctx_strategy ctx) model input_indices hd_image_index
     in Inr (ctx\<lparr>ctx_models := Some (ms\<lparr>strategic_principals :=
                     AList.update model_name strategic_model (strategic_principals ms)\<rparr>)\<rparr>))))))))"

text \<open>
  The body of the loop that loads weights. \<open>load_weights\<close> gives the variables of the
  model the values kept in the file.
\<close>

definition load_weights :: "filesystem \<Rightarrow> string \<Rightarrow> model_handle \<Rightarrow> real list \<Rightarrow> error + real list" where
  "load_weights fs path model vars =
     (case fs path of
        Some (File (Weights ws)) \<Rightarrow>
          Inr (update_variables (\<lambda>i old new. new) (zip ws (trainable_variables model)) vars)
      | _ \<Rightarrow> Inl OSError)"

definition load_principal ::
  "filesystem \<Rightarrow> key \<times> yaml \<Rightarrow> session_context \<Rightarrow> error + session_context" where
  "load_principal fs entry ctx =
     (case entry of (name, config) \<Rightarrow>
     and_then (dict_get config (KStr ''path'') (YStr [])) (\<lambda>path.
     let path = (if truthy path then path else YStr [])
     in case path of
          YStr p \<Rightarrow>
            if \<not> isfile fs p then Inr ctx
            else
              and_then (ctx_get (ctx_models ctx)) (\<lambda>ms.
              and_then (lookup (principals ms) name) (\<lambda>model.
              and_then (load_weights fs p model (ctx_variables ctx)) (\<lambda>vars.
              Inr (ctx\<lparr>ctx_variables := vars\<rparr>))))
        | YList xs \<Rightarrow> Inl TypeError
        | YDict kvs \<Rightarrow> Inl TypeError
        | _ \<Rightarrow> Inr ctx))"

definition build_models ::
  "tensorflow \<Rightarrow> provider \<Rightarrow> string list \<Rightarrow> filesystem \<Rightarrow> session_context
     \<Rightarrow> error + session_context" where
  "build_models tf provider gpus fs ctx =
     (if ctx_datasets ctx = None
      then Inl (ValueError ''build datasets before building models'')
      else
        and_then (getitem (ctx_experiment ctx) (KStr ''models'')) (\<lambda>models_config.
        and_then (getitem (ctx_experiment ctx) (KStr ''optimizers'')) (\<lambda>optimizers_config.
        and_then (getitem models_config (KStr ''name'')) (\<lambda>name.
        and_then (getitem models_config (KStr ''parameters'')) (\<lambda>parameters.
        and_then (provider name parameters) (\<lambda>(exts, prins, vars).
        let ctx = ctx\<lparr>ctx_models := Some \<lparr>extensions = exts, principals = prins,
                                             strategic_extensions = [],
                                             strategic_principals = []\<rparr>,
                       ctx_optimizers := Some [],
                       ctx_variables := vars\<rparr>;
            num_gpus = length gpus
        in and_then (items optimizers_config) (\<lambda>optimizer_items.
           and_then (for_each (build_training tf num_gpus) optimizer_items ctx) (\<lambda>ctx.
           and_then (getitem (ctx_experiment ctx) (KStr ''validators'')) (\<lambda>validators.
           and_then (iterate validators) (\<lambda>validators.
           and_then (for_each build_validation validators ctx) (\<lambda>ctx.
           and_then (getitem models_config (KStr ''principals'')) (\<lambda>principals_config.
           and_then (items principals_config) (\<lambda>principal_items.
           for_each (load_principal fs) principal_items ctx)))))))))))))"

section \<open>train\<close>

text \<open>The body of the loop over the names in \<open>context['optimizers']\<close>.\<close>

definition train_with :: "int \<Rightarrow> key \<Rightarrow> session_context \<Rightarrow> error + session_context" where
  "train_with step name ctx =
     and_then (getitem (ctx_experiment ctx) (KStr ''optimizers'')) (\<lambda>optimizers_config.
     and_then (getitem optimizers_config name) (\<lambda>config.
     and_then (getitem config (KStr ''cycle'')) (\<lambda>cycle.
     and_then (off_cycle step cycle) (\<lambda>skip.
     if skip then Inr ctx
     else
       and_then (getitem config (KStr ''dataset'')) (\<lambda>dataset_config.
       and_then (getitem dataset_config (KStr ''name'')) (\<lambda>dataset_name.
       and_then (as_key dataset_name) (\<lambda>dataset_name.
       and_then (ctx_get (ctx_datasets ctx)) (\<lambda>dss.
       and_then (lookup dss dataset_name) (\<lambda>dataset.
       and_then (getitem config (KStr ''extension_model'')) (\<lambda>model_name.
       and_then (as_key model_name) (\<lambda>model_name.
       and_then (ctx_get (ctx_models ctx)) (\<lambda>ms.
       and_then (lookup (strategic_extensions ms) model_name) (\<lambda>(bound, model).
       and_then (next_batch dss dataset_name) (\<lambda>(data, dss).
       and_then (ctx_get (ctx_optimizers ctx)) (\<lambda>opts.
       and_then (lookup opts bound) (\<lambda>optimizer.
       and_then (model optimizer (ctx_variables ctx) data) (\<lambda>(loss, optimizer, vars).
       Inr (ctx\<lparr>ctx_datasets := Some dss,
                ctx_optimizers := Some (AList.update bound optimizer opts),
                ctx_variables := vars,
                ctx_scribe := (fst (ctx_scribe ctx),
                               snd (ctx_scribe ctx) @ [Scalar ''loss'' (AKey name) loss step]),
                ctx_logger := ctx_logger ctx
                  @ [(''loss[%s][%s]: %s'', [AKey name, AInt step, AReal loss])]\<rparr>)
       )))))))))))))))))"

definition train :: "session_context \<Rightarrow> error + session_context" where
  "train ctx =
     and_then (global_step ctx) (\<lambda>step.
     and_then (ctx_get (ctx_models ctx)) (\<lambda>ms.
     and_then (ctx_get (ctx_optimizers ctx)) (\<lambda>opts.
     for_each (train_with step) (map fst opts) ctx)))"

section \<open>validate\<close>

text \<open>
  The branch on \<open>hasattr(resp[0], 'values')\<close>: a per-replica response is concatenated
  over its components, an ordinary one is taken as it is (\<open>tf.concat\<close> of one tensor).
\<close>

fun gather_images :: "tensor dvalue \<times> tensor dvalue \<Rightarrow> error + (tensor \<times> tensor)" where
  "gather_images (PerReplica srs, PerReplica hds) = Inr (concat srs, concat hds)"
| "gather_images (PerReplica srs, Local hd_images) = Inl AttributeError"
| "gather_images (Local sr_images, Local hd_images) = Inr (sr_images, hd_images)"
| "gather_images (Local sr_images, PerReplica hds) = Inl TypeError"

text \<open>The body of the loop over the validators.\<close>

definition validate_with ::
  "tensorflow \<Rightarrow> int \<Rightarrow> yaml \<Rightarrow> session_context \<Rightarrow> error + session_context" where
  "validate_with tf step validator ctx =
     and_then (getitem validator (KStr ''cycle'')) (\<lambda>cycle.
     and_then (off_cycle step cycle) (\<lambda>skip.
     if skip then Inr ctx
     else
       and_then (getitem validator (KStr ''dataset'')) (\<lambda>dataset_config.
       and_then (getitem dataset_config (KStr ''name'')) (\<lambda>dataset_name.
       and_then (as_key dataset_name) (\<lambda>dataset_name.
       and_then (ctx_get (ctx_datasets ctx)) (\<lambda>dss.
       and_then (lookup dss dataset_name) (\<lambda>dataset.
       and_then (getitem validator (KStr ''principal_model'')) (\<lambda>model_name.
       and_then (as_key model_name) (\<lambda>model_name.
       and_then (ctx_get (ctx_models ctx)) (\<lambda>ms.
       and_then (lookup (strategic_principals ms) model_name) (\<lambda>model.
       and_then (next_batch dss dataset_name) (\<lambda>(data, dss).
       and_then (model (ctx_variables ctx) data) (\<lambda>resp.
       and_then (gather_images resp) (\<lambda>(sr_images, hd_images).
       and_then (getitem validator (KStr ''name'')) (\<lambda>name.
       Inr (ctx\<lparr>ctx_datasets := Some dss,
                ctx_scribe := (fst (ctx_scribe ctx),
                  snd (ctx_scribe ctx)
                    @ [Scalar ''psnr'' (AYaml name) (psnr tf sr_images hd_images) step,
                       Scalar ''ssim'' (AYaml name) (ssim tf sr_images hd_images) step,
                       Picture ''hd-sr'' (AYaml name) (composite tf hd_images sr_images) step]),
                ctx_logger := ctx_logger ctx
                  @ [(''psnr[%s][%s]: %s'',
                       [AYaml name, AInt step, AReal (psnr tf sr_images hd_images)]),
                     (''ssim[%s][%s]: %s'',
                       [AYaml name, AInt step, AReal (ssim tf sr_images hd_images)])]\<rparr>)
       )))))))))))))))"

definition validate :: "tensorflow \<Rightarrow> session_context \<Rightarrow> error + session_context" where
  "validate tf ctx =
     and_then (global_step ctx) (\<lambda>step.
     and_then (ctx_get (ctx_models ctx)) (\<lambda>ms.
     and_then (getitem (ctx_experiment ctx) (KStr ''validators'')) (\<lambda>validators.
     and_then (iterate validators) (\<lambda>validators.
     for_each (validate_with tf step) validators ctx))))"

section \<open>save\<close>

text \<open>
  What \<open>save\<close> writes, in the order of the writes: the weight file of a principal model
  (\<open>save_weights\<close>) and the descriptor (\<open>dumper.dump\<close>). A call of \<open>save\<close> returns the
  writes it made, also when it then raises.
\<close>

datatype io_event = Save_weights string "real list" | Dump string yaml

text \<open>The name of a key inside an f-string.\<close>

fun format_key :: "key \<Rightarrow> string" where
  "format_key (KStr s) = s"
| "format_key (KInt i) = str_of_int i"

text \<open>\<open>os.path.join(experiment['checkpoint']['path'], name)\<close>.\<close>

definition checkpoint_file :: "yaml \<Rightarrow> string \<Rightarrow> error + string" where
  "checkpoint_file experiment name =
     and_then (getitem experiment (KStr ''checkpoint'')) (\<lambda>checkpoint.
     and_then (getitem checkpoint (KStr ''path'')) (\<lambda>dir.
     case dir of YStr d \<Rightarrow> Inr (os_path_join d name) | _ \<Rightarrow> Inl TypeError))"

text \<open>
  The loop over \<open>experiment['models']['principals'].items()\<close>: for every entry the
  weights are written, then the entry gets its \<open>path\<close>. It returns the writes made and
  the updated entries.
\<close>

fun save_principals ::
  "session_context \<Rightarrow> yaml \<Rightarrow> int \<Rightarrow> (key \<times> yaml) list
     \<Rightarrow> io_event list \<times> (error + (key \<times> yaml) list)" where
  "save_principals ctx experiment step [] = ([], Inr [])"
| "save_principals ctx experiment step ((model_name, config) # rest) =
     (let name = rjust (str_of_int step) 16 CHR ''0'' @ ''_'' @ format_key model_name @ ''.h5''
      in case and_then (checkpoint_file experiment name) (\<lambda>path.
              and_then (ctx_get (ctx_models ctx)) (\<lambda>ms.
              and_then (lookup (principals ms) model_name) (\<lambda>model.
              Inr (path, map (\<lambda>i. ctx_variables ctx ! i) (trainable_variables model))))) of
           Inl e \<Rightarrow> ([], Inl e)
         | Inr (path, weights) \<Rightarrow>
             (case setitem config (KStr ''path'') (YStr path) of
                Inl e \<Rightarrow> ([Save_weights path weights], Inl e)
              | Inr config \<Rightarrow>
                  (case save_principals ctx experiment step rest of
                     (writes, r) \<Rightarrow>
                       (Save_weights path weights # writes,
                        and_then r (\<lambda>rest. Inr ((model_name, config) # rest))))))"

text \<open>The loop over \<open>experiment['optimizers'].items()\<close>.\<close>

definition snapshot_optimizer :: "(key \<times> optimizer) list \<Rightarrow> key \<times> yaml \<Rightarrow> error + (key \<times> yaml)" where
  "snapshot_optimizer opts entry =
     (case entry of (name, config) \<Rightarrow>
     and_then (lookup opts name) (\<lambda>optimizer.
     and_then (setitem config (KStr ''config'') (get_config optimizer)) (\<lambda>config.
     Inr (name, config))))"

text \<open>
  The descriptor after the two loops. The source changes the entries in place; here
  they are put back where they were read.
\<close>

definition put_principals :: "yaml \<Rightarrow> (key \<times> yaml) list \<Rightarrow> error + yaml" where
  "put_principals experiment entries =
     and_then (getitem experiment (KStr ''models'')) (\<lambda>models_config.
     and_then (setitem models_config (KStr ''principals'') (YDict entries)) (\<lambda>models_config.
     setitem experiment (KStr ''models'') models_config))"

definition save :: "session_context \<Rightarrow> io_event list \<times> (error + session_context)" where
  "save ctx =
     (let experiment = ctx_experiment ctx
      in case and_then (global_step ctx) (\<lambda>step.
              and_then (getitem experiment (KStr ''checkpoint'')) (\<lambda>checkpoint.
              and_then (getitem checkpoint (KStr ''cycle'')) (\<lambda>cycle.
              and_then (off_cycle step cycle) (\<lambda>skip. Inr (step, skip))))) of
           Inl e \<Rightarrow> ([], Inl e)
         | Inr (step, skip) \<Rightarrow>
             if skip then ([], Inr ctx)
             else
               (case and_then (setitem experiment (KStr ''global_step'') (YInt step)) (\<lambda>experiment.
                     and_then (getitem experiment (KStr ''models'')) (\<lambda>models_config.
                     and_then (getitem models_config (KStr ''principals'')) (\<lambda>principals_config.
                     and_then (items principals_config) (\<lambda>entries. Inr (experiment, entries))))) of
                  Inl e \<Rightarrow> ([], Inl e)
                | Inr (experiment, entries) \<Rightarrow>
                    (case save_principals ctx experiment step entries of
                       (writes, Inl e) \<Rightarrow> (writes, Inl e)
                     | (writes, Inr entries) \<Rightarrow>
                         (case and_then (put_principals experiment entries) (\<lambda>experiment.
                               and_then (getitem experiment (KStr ''optimizers'')) (\<lambda>optimizers_config.
                               and_then (items optimizers_config) (\<lambda>optimizer_entries.
                               and_then (ctx_get (ctx_optimizers ctx)) (\<lambda>opts.
                               and_then (all_results (map (snapshot_optimizer opts) optimizer_entries))
                                 (\<lambda>optimizer_entries.
                               and_then (setitem experiment (KStr ''optimizers'')
                                           (YDict optimizer_entries)) (\<lambda>experiment.
                               and_then (checkpoint_file experiment
                                           (rjust (str_of_int step) 16 CHR ''0'' @ ''_checkpoint.yaml''))
                                 (\<lambda>path. Inr (experiment, path)))))))) of
                            Inl e \<Rightarrow> (writes, Inl e)
                          | Inr (experiment, path) \<Rightarrow>
                              (writes @ [Dump path experiment],
                               Inr (ctx\<lparr>ctx_experiment := experiment\<rparr>))))))"

text \<open>The files on disk after a sequence of writes.\<close>

fun written :: "filesystem \<Rightarrow> io_event list \<Rightarrow> filesystem" where
  "written fs [] = fs"
| "written fs (Save_weights path weights # rest) = written (fs(path \<mapsto> File (Weights weights))) rest"
| "written fs (Dump path experiment # rest) = written (fs(path \<mapsto> File (Yaml experiment))) rest"

section \<open>Replicas and their inputs\<close>

text \<open>
  The inputs \<open>experimental_run_v2\<close> hands to the replicas, in the order of the replicas,
  and the dataset an optimizer's configuration binds it to. The properties of the
  adapters and of \<open>build_models\<close> are stated with them.
\<close>

text \<open>
  \<open>[inputs[index] for index in index_inputs]\<close> when the indices are integers within the
  range of the tuple: its entries at the indices, in the order of the indices, a negative
  index counted from the end.
\<close>

definition reordered :: "'a list \<Rightarrow> int list \<Rightarrow> 'a list" where
  "reordered inputs indices =
     map (\<lambda>i. inputs ! nat (if i < 0 then int (length inputs) + i else i)) indices"

fun shards :: "strategy \<Rightarrow> 'a dvalue \<Rightarrow> 'a list" where
  "shards (OneDeviceStrategy device) (Local x) = [x]"
| "shards (OneDeviceStrategy device) (PerReplica xs) = []"
| "shards (MirroredStrategy devices) (PerReplica xs) = xs"
| "shards (MirroredStrategy devices) (Local x) = replicate (length devices) x"

definition dataset_of :: "yaml \<Rightarrow> error + key" where
  "dataset_of config =
     and_then (getitem config (KStr ''dataset'')) (\<lambda>dataset_config.
     and_then (getitem dataset_config (KStr ''name'')) as_key)"

text \<open>
  The extension model and the input indices an optimizer's configuration names,
  \<open>config['extension_model']\<close> and \<open>config['dataset']['input_indices']\<close>.
\<close>

definition model_of :: "yaml \<Rightarrow> error + key" where
  "model_of config = and_then (getitem config (KStr ''extension_model'')) as_key"

definition indices_of :: "yaml \<Rightarrow> error + yaml" where
  "indices_of config =
     and_then (getitem config (KStr ''dataset'')) (\<lambda>dataset_config.
     getitem dataset_config (KStr ''input_indices''))"

text \<open>
  The number of batches the optimizers before the \<open>i\<close>-th one of the descriptor pull
  from a dataset in \<open>build_models\<close>: one for each of them that is bound to it.
\<close>

definition pulled_before :: "(key \<times> yaml) list \<Rightarrow> nat \<Rightarrow> key \<Rightarrow> nat" where
  "pulled_before entries i d =
     length (filter (\<lambda>(name, config). dataset_of config = Inr d) (take i entries))"

text \<open>
  The step the \<open>i\<close>-th optimizer of the descriptor makes in \<open>build_models\<close>, told from
  the extension models, the datasets as they were before the loop and the values of the
  variables before the step: the training function of its extension model, called with
  a new optimizer on the batch the earlier optimizers have left as the next one of its
  dataset.
\<close>

definition first_update ::
  "tensorflow \<Rightarrow> strategy \<Rightarrow> nat \<Rightarrow> (key \<times> model_handle) list
     \<Rightarrow> (key \<times> batch dvalue list) list \<Rightarrow> (key \<times> yaml) list \<Rightarrow> nat \<Rightarrow> real list
     \<Rightarrow> error + (real \<times> optimizer \<times> real list)" where
  "first_update tf strategy num_gpus exts dss entries i vars =
     (case entries ! i of (optimizer_name, config) \<Rightarrow>
     and_then (model_of config) (\<lambda>model_name.
     and_then (lookup exts model_name) (\<lambda>model.
     and_then (indices_of config) (\<lambda>input_indices.
     and_then (dataset_of config) (\<lambda>dataset_name.
     and_then (lookup dss dataset_name) (\<lambda>batches.
     and_then (build_optimizer tf strategy config) (\<lambda>optimizer.
     case drop (pulled_before entries i dataset_name) batches of
       [] \<Rightarrow> Inl StopIteration
     | data # rest \<Rightarrow>
         build_strategic_training_model tf strategy model input_indices num_gpus
           optimizer vars data)))))))"

section \<open>An example session\<close>

text \<open>
  A small session on which the functions are run: one extension model whose loss
  elements are the input elements times the first variable, one principal model that
  scales its input by the second variable, gradients by a difference quotient, and an
  optimizer that subtracts the gradient and keeps a running average of the gradients
  as its slot variables, from 0.
\<close>

definition example_tensorflow :: tensorflow where
  "example_tensorflow =
     \<lparr>tape_gradient = (\<lambda>f vs positions. map (\<lambda>i. f (vs[i := vs ! i + 1]) - f vs) positions),
      update_rule = (\<lambda>config count moments i v g. v - g),
      update_slots = (\<lambda>config count moments gradients.
         map2 (\<lambda>m g. (9 * m + g) / 10)
           (moments @ replicate (length gradients - length moments) 0) gradients),
      from_config = (\<lambda>config. config),
      psnr = (\<lambda>sr hd. sum_list sr - sum_list hd),
      ssim = (\<lambda>sr hd. 1),
      composite = (\<lambda>hd sr. hd @ sr)\<rparr>"

definition example_extension :: model_handle where
  "example_extension =
     \<lparr>call = (\<lambda>vs inputs. map (\<lambda>x. vs ! 0 * x) (concat inputs)), trainable_variables = [0]\<rparr>"

text \<open>
  An extension model whose loss depends on the order of its inputs: the elements of the
  first input times the first variable, minus the elements of the second input.
\<close>

definition example_residual :: model_handle where
  "example_residual =
     \<lparr>call = (\<lambda>vs inputs. map2 (\<lambda>x y. vs ! 0 * x - y) (inputs ! 0) (inputs ! 1)),
      trainable_variables = [0]\<rparr>"

definition example_principal :: model_handle where
  "example_principal =
     \<lparr>call = (\<lambda>vs inputs. map (\<lambda>x. vs ! 1 * x) (concat inputs)), trainable_variables = [1]\<rparr>"

definition example_provider :: provider where
  "example_provider name parameters =
     Inr ([(KStr ''generator_loss'', example_extension)],
          [(KStr ''generator'', example_principal)], [2, 3])"

definition example_experiment :: yaml where
  "example_experiment =
     YDict [(KStr ''name'', YStr ''srgan''),
            (KStr ''global_step'', YInt 0),
            (KStr ''summary'', YDict [(KStr ''path'', YStr ''/logs'')]),
            (KStr ''checkpoint'', YDict [(KStr ''path'', YStr ''/ckpt''), (KStr ''cycle'', YInt 2)]),
            (KStr ''models'',
               YDict [(KStr ''name'', YStr ''models.srgan''),
                      (KStr ''parameters'', YDict []),
                      (KStr ''principals'', YDict [(KStr ''generator'', YDict [])])]),
            (KStr ''optimizers'',
               YDict [(KStr ''adam_g'',
                 YDict [(KStr ''optimizer'', YStr ''Adam''),
                        (KStr ''extension_model'', YStr ''generator_loss''),
                        (KStr ''dataset'',
                           YDict [(KStr ''name'', YStr ''train''),
                                  (KStr ''input_indices'', YList [YInt 1, YInt 0])]),
                        (KStr ''cycle'', YInt 1)])]),
            (KStr ''validators'',
               YList [YDict [(KStr ''name'', YStr ''val''),
                             (KStr ''principal_model'', YStr ''generator''),
                             (KStr ''dataset'',
                                YDict [(KStr ''name'', YStr ''valid''),
                                       (KStr ''input_indices'', YList [YInt 0]),
                                       (KStr ''hd_image_index'', YInt 1)]),
                             (KStr ''cycle'', YInt 2)]])]"

text \<open>The context after \<open>load_experiment\<close> and \<open>build_datasets\<close>, on two GPUs.\<close>

definition example_loaded :: session_context where
  "example_loaded =
     \<lparr>ctx_experiment = example_experiment,
      ctx_strategy = MirroredStrategy [''GPU:0'', ''GPU:1''],
      ctx_logger = [],
      ctx_scribe = (''/logs'', []),
      ctx_global_step = YInt 0,
      ctx_datasets = Some [(KStr ''train'', [PerReplica [[[1, 2], [3]], [[4], [5]]],
                                             PerReplica [[[1], [1]], [[2], [2]]],
                                             PerReplica [[[0], [1]], [[1], [0]]]]),
                           (KStr ''valid'', [PerReplica [[[1], [2]], [[3], [4]]]])],
      ctx_models = None,
      ctx_optimizers = None,
      ctx_variables = []\<rparr>"

text \<open>The context after \<open>build_models\<close>: every optimizer has made one step.\<close>

definition example_built :: session_context where
  "example_built =
     example_loaded
       \<lparr>ctx_datasets := Some [(KStr ''train'', [PerReplica [[[1], [1]], [[2], [2]]],
                                                PerReplica [[[0], [1]], [[1], [0]]]]),
                              (KStr ''valid'', [PerReplica [[[1], [2]], [[3], [4]]]])],
        ctx_models := Some
          \<lparr>extensions = [(KStr ''generator_loss'', example_extension)],
           principals = [(KStr ''generator'', example_principal)],
           strategic_extensions =
             [(KStr ''generator_loss'', KStr ''adam_g'',
               build_strategic_training_model example_tensorflow
                 (MirroredStrategy [''GPU:0'', ''GPU:1'']) example_extension
                 (YList [YInt 1, YInt 0]) 2)],
           strategic_principals =
             [(KStr ''generator'',
               build_strategic_validation_model (MirroredStrategy [''GPU:0'', ''GPU:1''])
                 example_principal (YList [YInt 0]) (YInt 1))]\<rparr>,
        ctx_optimizers := Some [(KStr ''adam_g'',
                                 \<lparr>iterations = PerReplica [1, 1], get_config = YDict [], slots = [3 / 4]\<rparr>)],
        ctx_variables := [- 11 / 2, 3]\<rparr>"

text \<open>The context after the first \<open>train\<close>, at step 1.\<close>

definition example_trained :: session_context where
  "example_trained =
     example_built
       \<lparr>ctx_datasets := Some [(KStr ''train'', [PerReplica [[[0], [1]], [[1], [0]]]]),
                              (KStr ''valid'', [PerReplica [[[1], [2]], [[3], [4]]]])],
        ctx_optimizers := Some [(KStr ''adam_g'',
                                 \<lparr>iterations = PerReplica [2, 2], get_config = YDict [], slots = [39 / 40]\<rparr>)],
        ctx_variables := [- 17 / 2, 3],
        ctx_scribe := (''/logs'', [Scalar ''loss'' (AKey (KStr ''adam_g'')) (- 33 / 4) 1]),
        ctx_logger := [(''loss[%s][%s]: %s'',
                        [AKey (KStr ''adam_g''), AInt 1, AReal (- 33 / 4)])]\<rparr>"

text \<open>The context after the first \<open>validate\<close>, at step 2.\<close>

definition example_validated :: session_context where
  "example_validated =
     example_trained
       \<lparr>ctx_datasets := Some [(KStr ''train'', [PerReplica [[[0], [1]], [[1], [0]]]]),
                              (KStr ''valid'', [])],
        ctx_scribe := (''/logs'', [Scalar ''loss'' (AKey (KStr ''adam_g'')) (- 33 / 4) 1,
                                   Scalar ''psnr'' (AYaml (YStr ''val'')) 6 2,
                                   Scalar ''ssim'' (AYaml (YStr ''val'')) 1 2,
                                   Picture ''hd-sr'' (AYaml (YStr ''val'')) [2, 4, 3, 9] 2]),
        ctx_logger := [(''loss[%s][%s]: %s'',
                        [AKey (KStr ''adam_g''), AInt 1, AReal (- 33 / 4)]),
                       (''psnr[%s][%s]: %s'', [AYaml (YStr ''val''), AInt 2, AReal 6]),
                       (''ssim[%s][%s]: %s'', [AYaml (YStr ''val''), AInt 2, AReal 1])]\<rparr>"

text \<open>The descriptor \<open>save\<close> writes at step 2, and the context after it.\<close>

definition example_snapshot :: yaml where
  "example_snapshot =
     YDict [(KStr ''name'', YStr ''srgan''),
            (KStr ''global_step'', YInt 2),
            (KStr ''summary'', YDict [(KStr ''path'', YStr ''/logs'')]),
            (KStr ''checkpoint'', YDict [(KStr ''path'', YStr ''/ckpt''), (KStr ''cycle'', YInt 2)]),
            (KStr ''models'',
               YDict [(KStr ''name'', YStr ''models.srgan''),
                      (KStr ''parameters'', YDict []),
                      (KStr ''principals'',
                         YDict [(KStr ''generator'',
                           YDict [(KStr ''path'',
                                   YStr ''/ckpt/0000000000000002_generator.h5'')])])]),
            (KStr ''optimizers'',
               YDict [(KStr ''adam_g'',
                 YDict [(KStr ''optimizer'', YStr ''Adam''),
                        (KStr ''extension_model'', YStr ''generator_loss''),
                        (KStr ''dataset'',
                           YDict [(KStr ''name'', YStr ''train''),
                                  (KStr ''input_indices'', YList [YInt 1, YInt 0])]),
                        (KStr ''cycle'', YInt 1),
                        (KStr ''config'', YDict [])])]),
            (KStr ''validators'',
               YList [YDict [(KStr ''name'', YStr ''val''),
                             (KStr ''principal_model'', YStr ''generator''),
                             (KStr ''dataset'',
                                YDict [(KStr ''name'', YStr ''valid''),
                                       (KStr ''input_indices'', YList [YInt 0]),
                                       (KStr ''hd_image_index'', YInt 1)]),
                             (KStr ''cycle'', YInt 2)]])]"

definition example_saved :: session_context where
  "example_saved = example_validated\<lparr>ctx_experiment := example_snapshot\<rparr>"

section \<open>Evaluation of the string functions\<close>

lemma digits_small [simp]: "n < 10 \<Longrightarrow> digits n = [''0123456789'' ! n]"
  by (subst digits.simps) simp

lemma digits_large [simp]:
  "10 \<le> n \<Longrightarrow> digits n = digits (n div 10) @ [''0123456789'' ! (n mod 10)]"
  by (subst digits.simps) simp

lemma and_then_Inr: "and_then r f = Inr y \<longleftrightarrow> (\<exists>x. r = Inr x \<and> f x = Inr y)"
  by (cases r) (auto simp: and_then_def)

section \<open>Properties of global_step\<close>

lemma most_active_Max:
  "most_active step opts =
     Max (insert step ((\<lambda>(name, opt). int (reduce_mean (iterations opt))) ` set opts))"
proof (induction opts arbitrary: step)
  case Nil
  show ?case by simp
next
  case (Cons a opts)
  obtain name opt where a: "a = (name, opt)" by (cases a)
  let ?f = "\<lambda>(name, opt). int (reduce_mean (iterations opt))"
  have fin: "finite (?f ` set opts)" by simp
  have "Max (insert (max step (?f a)) (?f ` set opts)) =
          Max (insert step (insert (?f a) (?f ` set opts)))"
  proof (cases "set opts = {}")
    case True
    then show ?thesis by (simp add: max.commute)
  next
    case False
    then show ?thesis using fin by (simp add: max.assoc)
  qed
  then show ?case using Cons.IH[of "max step (?f a)"] a by (simp add: Let_def)
qed

lemma most_active_nonempty:
  assumes "opts \<noteq> []"
  shows "most_active 0 opts =
           Max ((\<lambda>(name, opt). int (reduce_mean (iterations opt))) ` set opts)"
proof -
  let ?S = "(\<lambda>(name, opt). int (reduce_mean (iterations opt))) ` set opts"
  have ne: "?S \<noteq> {}" and fin: "finite ?S" using assms by auto
  have "\<forall>x\<in>?S. 0 \<le> x" by auto
  then have "0 \<le> Max ?S" using ne fin by (meson Max_in)
  then have "Max (insert 0 ?S) = Max ?S" using ne fin by (simp add: max_def)
  then show ?thesis by (simp add: most_active_Max)
qed

text \<open>
  C2. With at least one live optimizer and an integer base offset, \<open>global_step\<close>
  returns the greatest MEAN-reduced iteration counter of the optimizers plus the offset
  kept in the context. Reduced counters 3 and 7 with offset 10 give 17; a single counter
  0 with offset 5 gives 5.
\<close>

theorem global_step_max_plus_offset:
  assumes "ctx_optimizers ctx = Some opts" and "opts \<noteq> []" and "ctx_global_step ctx = YInt base"
  shows "global_step ctx =
           Inr (Max ((\<lambda>(name, opt). int (reduce_mean (iterations opt))) ` set opts) + base)
         \<and> (map (\<lambda>(name, opt). reduce_mean (iterations opt)) opts = [3, 7] \<and> base = 10
              \<longrightarrow> global_step ctx = Inr 17)
         \<and> (map (\<lambda>(name, opt). reduce_mean (iterations opt)) opts = [0] \<and> base = 5
              \<longrightarrow> global_step ctx = Inr 5)"
proof -
  let ?f = "\<lambda>(name, opt). int (reduce_mean (iterations opt))"
  let ?g = "\<lambda>(name, opt). reduce_mean (iterations opt)"
  have main: "global_step ctx = Inr (Max (?f ` set opts) + base)"
    using assms most_active_nonempty[OF assms(2)]
    by (simp add: global_step_def and_then_def ctx_get_def)
  have img: "?f ` set opts = int ` set (map ?g opts)"
    by (auto simp: image_iff split: prod.splits)
  have ex1: "map ?g opts = [3, 7] \<Longrightarrow> Max (?f ` set opts) = 7"
    unfolding img by simp
  have ex2: "map ?g opts = [0] \<Longrightarrow> Max (?f ` set opts) = 0"
    unfolding img by simp
  show ?thesis using main ex1 ex2 by simp
qed

theorem global_step_max_plus_offset_witness:
  "global_step
     \<lparr>ctx_experiment = YNull, ctx_strategy = MirroredStrategy [''GPU:0'', ''GPU:1''], ctx_logger = [],
      ctx_scribe = (''/logs'', []), ctx_global_step = YInt 10, ctx_datasets = None, ctx_models = None,
      ctx_optimizers = Some [(KStr ''generator'', \<lparr>iterations = PerReplica [3, 3], get_config = YNull, slots = []\<rparr>),
                         (KStr ''discriminator'', \<lparr>iterations = PerReplica [7, 7], get_config = YNull, slots = []\<rparr>)],
      ctx_variables = []\<rparr> = Inr 17"
  using global_step_max_plus_offset
    [of "\<lparr>ctx_experiment = YNull, ctx_strategy = MirroredStrategy [''GPU:0'', ''GPU:1''], ctx_logger = [],
      ctx_scribe = (''/logs'', []), ctx_global_step = YInt 10, ctx_datasets = None, ctx_models = None,
      ctx_optimizers = Some [(KStr ''generator'', \<lparr>iterations = PerReplica [3, 3], get_config = YNull, slots = []\<rparr>),
                         (KStr ''discriminator'', \<lparr>iterations = PerReplica [7, 7], get_config = YNull, slots = []\<rparr>)],
      ctx_variables = []\<rparr>"
     "[(KStr ''generator'', \<lparr>iterations = PerReplica [3, 3], get_config = YNull, slots = []\<rparr>),
       (KStr ''discriminator'', \<lparr>iterations = PerReplica [7, 7], get_config = YNull, slots = []\<rparr>)]" 10]
  by (simp add: numeral_2_eq_2[symmetric])

section \<open>Properties of find_latest_checkpoint\<close>

lemma sorted_le_last:
  fixes xs :: "'a::linorder list"
  shows "sorted xs \<Longrightarrow> x \<in> set xs \<Longrightarrow> x \<le> last xs"
  by (induction xs) auto

lemma last_sort_Max:
  fixes xs :: "'a::linorder list"
  assumes "xs \<noteq> []"
  shows "last (sort xs) = Max (set xs)"
proof -
  have ne: "sort xs \<noteq> []" using assms by (metis length_0_conv length_sort)
  have "\<forall>x\<in>set (sort xs). x \<le> last (sort xs)"
    using sorted_le_last[of "sort xs"] by simp
  moreover have "last (sort xs) \<in> set (sort xs)" using ne by (rule last_in_set)
  ultimately show ?thesis by (metis List.finite_set Max_eqI set_sort)
qed

lemma endswith_join: "endswith (os_path_join path name) name"
  by (auto simp: os_path_join_def endswith_def)

lemma digit_char_order:
  assumes "a < b" and "b < 10"
  shows "''0123456789'' ! a < ''0123456789'' ! b"
proof -
  have val: "of_char (''0123456789'' ! i) = (48 + i :: nat)" if "i < 10" for i
  proof -
    from that have "i = 0 \<or> i = 1 \<or> i = 2 \<or> i = 3 \<or> i = 4 \<or> i = 5 \<or> i = 6
                    \<or> i = 7 \<or> i = 8 \<or> i = 9" by arith
    then show ?thesis by (elim disjE) simp_all
  qed
  have "a < 10" using assms by simp
  then show ?thesis using assms val[of a] val[of b] by (simp add: less_char_def)
qed

lemma snoc_less:
  fixes xs ys :: "char list"
  assumes "length xs = length ys"
  shows "xs @ [a] < ys @ [b] \<longleftrightarrow> xs < ys \<or> (xs = ys \<and> a < b)"
  using assms by (induction xs ys rule: list_induct2) auto

lemma append_less:
  fixes xs ys :: "char list"
  assumes "length xs = length ys" and "xs < ys"
  shows "xs @ s < ys @ t"
  using assms by (induction xs ys rule: list_induct2) auto

lemma digits_length: "0 < k \<Longrightarrow> n < 10 ^ k \<Longrightarrow> length (digits n) \<le> k"
proof (induction k arbitrary: n)
  case 0
  then show ?case by simp
next
  case (Suc k)
  show ?case
  proof (cases "n < 10")
    case True
    then show ?thesis by simp
  next
    case False
    then have k: "0 < k" using Suc.prems by (cases k) auto
    have "n div 10 < 10 ^ k" using Suc.prems by (simp add: less_mult_imp_div_less mult.commute)
    from Suc.IH[OF k this] False show ?thesis by simp
  qed
qed

lemma pad_step:
  assumes "0 < k" and "n < 10 ^ Suc k"
  shows "rjust (digits n) (Suc k) CHR ''0''
           = rjust (digits (n div 10)) k CHR ''0'' @ [''0123456789'' ! (n mod 10)]"
proof (cases "n < 10")
  case True
  then have "n div 10 = 0" by simp
  moreover have "replicate (k - Suc 0) CHR ''0'' @ ''0'' = replicate k CHR ''0''"
    using assms(1) by (cases k) (simp_all add: replicate_append_same)
  ultimately show ?thesis using True by (simp add: rjust_def)
next
  case False
  have "n div 10 < 10 ^ k" using assms by (simp add: less_mult_imp_div_less mult.commute)
  from digits_length[OF assms(1) this] False show ?thesis
    by (simp add: rjust_def Suc_diff_le)
qed

lemma pad_length:
  assumes "0 < k" and "n < 10 ^ k"
  shows "length (rjust (digits n) k CHR ''0'') = k"
  using digits_length[OF assms] by (simp add: rjust_def)

lemma pad_mono:
  "0 < k \<Longrightarrow> a < b \<Longrightarrow> b < 10 ^ k \<Longrightarrow>
   rjust (digits a) k CHR ''0'' < rjust (digits b) k CHR ''0''"
proof (induction k arbitrary: a b)
  case 0
  then show ?case by simp
next
  case (Suc k)
  show ?case
  proof (cases "k = 0")
    case True
    then show ?thesis using Suc.prems digit_char_order[of a b] by (simp add: rjust_def)
  next
    case False
    then have k: "0 < k" by simp
    have a10: "a < 10 ^ Suc k" using Suc.prems by simp
    have bd: "b div 10 < 10 ^ k" using Suc.prems by (simp add: less_mult_imp_div_less mult.commute)
    have ad: "a div 10 < 10 ^ k" using a10 by (simp add: less_mult_imp_div_less mult.commute)
    have len: "length (rjust (digits (a div 10)) k CHR ''0'')
                 = length (rjust (digits (b div 10)) k CHR ''0'')"
      using pad_length[OF k ad] pad_length[OF k bd] by simp
    consider "a div 10 < b div 10" | "a div 10 = b div 10" "a mod 10 < b mod 10"
    proof -
      have "a div 10 \<le> b div 10" using Suc.prems(2) by (simp add: div_le_mono)
      moreover have "a mod 10 < b mod 10" if "a div 10 = b div 10"
      proof -
        have "a = 10 * (a div 10) + a mod 10" "b = 10 * (b div 10) + b mod 10" by simp_all
        with that Suc.prems(2) show ?thesis by linarith
      qed
      ultimately show ?thesis using that by (cases "a div 10 = b div 10") auto
    qed
    then have "rjust (digits (a div 10)) k CHR ''0'' @ [''0123456789'' ! (a mod 10)]
             < rjust (digits (b div 10)) k CHR ''0'' @ [''0123456789'' ! (b mod 10)]"
    proof cases
      case 1
      from Suc.IH[OF k 1 bd] show ?thesis using len by (simp add: snoc_less)
    next
      case 2
      have "''0123456789'' ! (a mod 10) < ''0123456789'' ! (b mod 10)"
        using 2(2) by (intro digit_char_order) simp_all
      then show ?thesis using 2(1) len by (simp add: snoc_less)
    qed
    then show ?thesis using pad_step[OF k a10] pad_step[OF k Suc.prems(3)] by simp
  qed
qed

lemma checkpoint_names_ordered:
  assumes "0 \<le> a" and "a < b" and "b < 10 ^ 16"
  shows "rjust (str_of_int a) 16 CHR ''0'' @ ''_checkpoint.yaml''
           < rjust (str_of_int b) 16 CHR ''0'' @ ''_checkpoint.yaml''"
proof -
  have b: "nat b < 10 ^ 16" using assms by (simp add: nat_less_iff)
  have ab: "nat a < nat b" using assms by simp
  have a: "nat a < 10 ^ 16" using ab b by (rule less_trans)
  have "rjust (digits (nat a)) 16 CHR ''0'' < rjust (digits (nat b)) 16 CHR ''0''"
    using pad_mono[of 16 "nat a" "nat b"] ab b by simp
  moreover have "length (rjust (digits (nat a)) 16 CHR ''0'')
                   = length (rjust (digits (nat b)) 16 CHR ''0'')"
    using pad_length[of 16 "nat a"] pad_length[of 16 "nat b"] a b by simp
  ultimately show ?thesis using assms by (simp add: str_of_int_def append_less)
qed

text \<open>
  C3. \<open>find_latest_checkpoint\<close> returns the path itself when it names a file. When it
  names a directory, the entries ending in \<open>_checkpoint.yaml\<close> are kept and sorted, and
  the result is the directory joined with the last of them, which is the greatest name in
  lexicographic order; with no such entry the call fails with a \<open>ValueError\<close> whose
  message names the directory. The names \<open>save\<close> gives to descriptors are ordered as
  their steps are, for steps below \<open>10 ^ 16\<close>, so the greatest name is the highest step.
\<close>

theorem find_latest_checkpoint_cases:
  "(isfile fs path \<longrightarrow> find_latest_checkpoint fs path = Inr path)
   \<and> (fs path = Some (Dir names) \<longrightarrow>
        (let cs = filter (\<lambda>name. endswith name ''_checkpoint.yaml'') names
         in if cs = [] then find_latest_checkpoint fs path
                              = Inl (ValueError (''Found no checkpoint within '' @ path))
            else find_latest_checkpoint fs path = Inr (os_path_join path (last (sort cs)))
                 \<and> last (sort cs) = Max (set cs)
                 \<and> endswith (os_path_join path (last (sort cs))) (Max (set cs))))
   \<and> (\<forall>a b. 0 \<le> a \<and> a < b \<and> b < 10 ^ 16 \<longrightarrow>
          rjust (str_of_int a) 16 CHR ''0'' @ ''_checkpoint.yaml''
            < rjust (str_of_int b) 16 CHR ''0'' @ ''_checkpoint.yaml'')"
proof (intro conjI impI allI)
  assume "isfile fs path"
  then show "find_latest_checkpoint fs path = Inr path"
    by (auto simp: isfile_def isdir_def find_latest_checkpoint_def split: option.splits node.splits)
next
  assume d: "fs path = Some (Dir names)"
  let ?cs = "filter (\<lambda>name. endswith name ''_checkpoint.yaml'') names"
  have dir: "isdir fs path" "listdir fs path = Inr names"
    using d by (simp_all add: isdir_def listdir_def)
  show "let cs = ?cs
         in if cs = [] then find_latest_checkpoint fs path
                              = Inl (ValueError (''Found no checkpoint within '' @ path))
            else find_latest_checkpoint fs path = Inr (os_path_join path (last (sort cs)))
                 \<and> last (sort cs) = Max (set cs)
                 \<and> endswith (os_path_join path (last (sort cs))) (Max (set cs))"
  proof (cases "?cs = []")
    case True
    then show ?thesis using dir
      by (simp add: find_latest_checkpoint_def and_then_def Let_def)
  next
    case False
    then have ne: "sort ?cs \<noteq> []" by (metis length_0_conv length_sort)
    have m: "last (sort ?cs) = Max (set ?cs)" using False by (rule last_sort_Max)
    have "find_latest_checkpoint fs path = Inr (os_path_join path (last (sort ?cs)))"
      using dir ne by (simp add: find_latest_checkpoint_def and_then_def Let_def)
    then show ?thesis using False m endswith_join[of path "last (sort ?cs)"]
      by (simp add: Let_def)
  qed
next
  fix a b :: int
  assume "0 \<le> a \<and> a < b \<and> b < 10 ^ 16"
  then show "rjust (str_of_int a) 16 CHR ''0'' @ ''_checkpoint.yaml''
            < rjust (str_of_int b) 16 CHR ''0'' @ ''_checkpoint.yaml''"
    by (intro checkpoint_names_ordered) simp_all
qed

theorem find_latest_checkpoint_cases_witness:
  "find_latest_checkpoint
     (Map.empty(''/ckpt'' \<mapsto> Dir [''0000000000000010_checkpoint.yaml'', ''notes.txt'',
                                       ''0000000000000005_checkpoint.yaml'']))
     ''/ckpt'' = Inr ''/ckpt/0000000000000010_checkpoint.yaml''
   \<and> find_latest_checkpoint (Map.empty(''/ckpt'' \<mapsto> Dir [''notes.txt''])) ''/ckpt''
       = Inl (ValueError ''Found no checkpoint within /ckpt'')
   \<and> find_latest_checkpoint (Map.empty(''/exp.yaml'' \<mapsto> File (Yaml YNull))) ''/exp.yaml''
       = Inr ''/exp.yaml''"
  using find_latest_checkpoint_cases
          [of "Map.empty(''/ckpt'' \<mapsto> Dir [''0000000000000010_checkpoint.yaml'', ''notes.txt'',
                                                ''0000000000000005_checkpoint.yaml''])" "''/ckpt''"
              "[''0000000000000010_checkpoint.yaml'', ''notes.txt'',
                ''0000000000000005_checkpoint.yaml'']"]
        find_latest_checkpoint_cases
          [of "Map.empty(''/ckpt'' \<mapsto> Dir [''notes.txt''])" "''/ckpt''" "[''notes.txt'']"]
        find_latest_checkpoint_cases
          [of "Map.empty(''/exp.yaml'' \<mapsto> File (Yaml YNull))" "''/exp.yaml''" "[]"]
  by (simp add: endswith_def os_path_join_def startswith_def isfile_def)


section \<open>Properties of resolve_strings\<close>

lemma map_of_map_entry:
  "map_of (map (\<lambda>(k, v). (k, f k v)) kvs) k = map_option (f k) (map_of kvs k)"
  by (induction kvs) auto

lemma resolve_entry_KInt:
  "resolve_entry env n (KInt i) v = resolve_entry env n (KInt j) v"
  by (cases v) (simp_all add: resolve_string_def)

lemma resolve_entry_container:
  "resolve_entry env n k (YList xs) = resolve_walk env n (YList xs)"
  "resolve_entry env n k (YDict kvs) = resolve_walk env n (YDict kvs)"
  by simp_all

lemma py_index_bound: "py_index i len = Inr j \<Longrightarrow> j < len"
  by (auto simp: py_index_def split: if_splits)

lemma getitem_resolve_walk:
  "getitem (resolve_walk env n y) k =
     (case getitem y k of Inl e \<Rightarrow> Inl e | Inr v \<Rightarrow> Inr (resolve_entry env n k v))"
proof (cases y)
  case (YList xs)
  show ?thesis
  proof (cases k)
    case (KStr s)
    then show ?thesis using YList by simp
  next
    case (KInt i)
    show ?thesis
    proof (cases "py_index i (length xs)")
      case (Inl e)
      then show ?thesis using YList KInt by (simp add: and_then_def)
    next
      case (Inr j)
      then have "j < length xs" by (rule py_index_bound)
      then show ?thesis using YList KInt Inr
        by (simp add: and_then_def nth_enumerate_eq resolve_entry_KInt[of env n "int j" _ i])
    qed
  qed
next
  case (YDict kvs)
  then show ?thesis by (simp add: map_of_map_entry split: option.splits)
qed (cases k; simp)+

lemma descend_scalar:
  "\<not> (\<exists>xs. y = YList xs) \<Longrightarrow> \<not> (\<exists>kvs. y = YDict kvs) \<Longrightarrow> descend y (k # ks) = Inl TypeError"
  by (cases y; cases k; simp add: and_then_def)

lemma resolve_entry_scalar:
  "\<not> (\<exists>xs. y = YList xs) \<Longrightarrow> \<not> (\<exists>kvs. y = YDict kvs) \<Longrightarrow>
   \<not> (\<exists>xs. resolve_entry env n k y = YList xs) \<and> \<not> (\<exists>kvs. resolve_entry env n k y = YDict kvs)"
  by (cases y) simp_all

lemma descend_resolve_walk:
  "descend (resolve_walk env n y) (k # ks) =
     (case descend y (k # ks) of Inl e \<Rightarrow> Inl e
      | Inr v \<Rightarrow> Inr (resolve_entry env n (last (k # ks)) v))"
proof (induction ks arbitrary: y k)
  case Nil
  show ?case by (simp add: and_then_def getitem_resolve_walk split: sum.splits)
next
  case (Cons k' ks)
  show ?case
  proof (cases "getitem y k")
    case (Inl e)
    then show ?thesis by (simp add: and_then_def getitem_resolve_walk)
  next
    case (Inr v)
    have g: "getitem (resolve_walk env n y) k = Inr (resolve_entry env n k v)"
      using Inr by (simp add: getitem_resolve_walk)
    show ?thesis
    proof (cases "(\<exists>xs. v = YList xs) \<or> (\<exists>kvs. v = YDict kvs)")
      case True
      then have "resolve_entry env n k v = resolve_walk env n v" by auto
      then show ?thesis using Inr g Cons.IH[of v k']
        by (simp add: and_then_def split: sum.splits)
    next
      case False
      then have a: "descend v (k' # ks) = Inl TypeError"
        by (intro descend_scalar) auto
      have b: "descend (resolve_entry env n k v) (k' # ks) = Inl TypeError"
        using False resolve_entry_scalar[of v env n k] by (intro descend_scalar) auto
      show ?thesis using Inr g a b by (simp add: and_then_def)
    qed
  qed
qed


lemma replace_from_no_brace:
  "CHR ''{'' \<notin> set a \<Longrightarrow>
   replace_from (a @ b) ''{experiment_name}'' new = a @ replace_from b ''{experiment_name}'' new"
  by (induction a) (auto simp: startswith_def)

lemma replace_from_placeholder:
  "replace_from (''{experiment_name}'' @ b) ''{experiment_name}'' new
     = new @ replace_from b ''{experiment_name}'' new"
  by (simp add: startswith_def)

lemma replace_from_plain:
  "CHR ''{'' \<notin> set a \<Longrightarrow> replace_from a ''{experiment_name}'' new = a"
  using replace_from_no_brace[where a = a and b = "[]" and new = new] by simp

lemma replace_from_join:
  "\<forall>a\<in>set parts. CHR ''{'' \<notin> set a \<Longrightarrow>
   replace_from (str_join ''{experiment_name}'' parts) ''{experiment_name}'' new = str_join new parts"
proof (induction "''{experiment_name}''" parts rule: str_join.induct)
  case 1
  show ?case by simp
next
  case (2 a)
  then show ?case by (simp add: replace_from_plain)
next
  case (3 a b rest)
  have "replace_from (a @ ''{experiment_name}'' @ str_join ''{experiment_name}'' (b # rest))
          ''{experiment_name}'' new
        = a @ new @ replace_from (str_join ''{experiment_name}'' (b # rest)) ''{experiment_name}'' new"
    using 3 replace_from_placeholder by (simp add: replace_from_no_brace del: replace_from.simps)
  then show ?case using 3 by simp
qed

lemma descend_resolve_nonempty:
  assumes "p \<noteq> []"
  shows "descend (resolve_walk env n y) p =
     (case descend y p of Inl e \<Rightarrow> Inl e | Inr v \<Rightarrow> Inr (resolve_entry env n (last p) v))"
proof -
  obtain k ks where p: "p = k # ks" using assms by (cases p) auto
  show ?thesis unfolding p by (rule descend_resolve_walk)
qed

lemma descend_resolve_any:
  assumes "descend y p = Inr v" and "(\<exists>xs. y = YList xs) \<or> (\<exists>kvs. y = YDict kvs)"
  shows "\<exists>k. descend (resolve_walk env n y) p = Inr (resolve_entry env n k v)"
proof (cases "p = []")
  case True
  then have "v = y" using assms by simp
  then show ?thesis using True assms(2) by auto
next
  case False
  then show ?thesis using descend_resolve_nonempty[OF False, of env n y] assms by auto
qed

text \<open>
  C7. On a list or a mapping \<open>resolve_strings\<close> succeeds, and in the result, read along
  any path of keys and indices: a string value is the original with the placeholder
  \<open>{experiment_name}\<close> replaced by the experiment name and, when the key it sits under
  is a string containing \<open>path\<close>, normalised (kept if absolute, home-expanded if it
  starts with \<open>~\<close>, otherwise resolved against the working directory); null, boolean
  and integer values are unchanged; every mapping has the same keys in the same order and
  every list the same length. Replacing turns every placeholder between brace-free
  pieces of text into the name.
\<close>

theorem resolve_strings_spec:
  assumes "(\<exists>xs. data = YList xs) \<or> (\<exists>kvs. data = YDict kvs)"
  shows "\<exists>r. resolve_strings env data name = Inr r
     \<and> (\<forall>p k s. descend data (p @ [k]) = Inr (YStr s) \<longrightarrow>
          descend r (p @ [k]) = Inr (YStr
            (let val = str_replace s ''{experiment_name}'' name
             in if (case k of KStr ks \<Rightarrow> str_contains ks ''path'' | KInt i \<Rightarrow> False)
                then (if is_absolute val then val
                      else if startswith val ''~'' then expanduser env val
                      else resolve env val)
                else val)))
     \<and> (\<forall>p v. descend data p = Inr v \<and> (v = YNull \<or> (\<exists>b. v = YBool b) \<or> (\<exists>i. v = YInt i))
            \<longrightarrow> descend r p = Inr v)
     \<and> (\<forall>p kvs. descend data p = Inr (YDict kvs) \<longrightarrow>
            (\<exists>kvs'. descend r p = Inr (YDict kvs') \<and> map fst kvs' = map fst kvs))
     \<and> (\<forall>p xs. descend data p = Inr (YList xs) \<longrightarrow>
            (\<exists>xs'. descend r p = Inr (YList xs') \<and> length xs' = length xs))
     \<and> (\<forall>parts. (\<forall>a\<in>set parts. CHR ''{'' \<notin> set a) \<longrightarrow>
            str_replace (str_join ''{experiment_name}'' parts) ''{experiment_name}'' name
              = str_join name parts)"
proof -
  let ?r = "resolve_walk env name data"
  have r: "resolve_strings env data name = Inr ?r"
    using assms by (auto simp: resolve_strings_def)
  have strs: "descend ?r (p @ [k]) = Inr (YStr
            (let val = str_replace s ''{experiment_name}'' name
             in if (case k of KStr ks \<Rightarrow> str_contains ks ''path'' | KInt i \<Rightarrow> False)
                then (if is_absolute val then val
                      else if startswith val ''~'' then expanduser env val
                      else resolve env val)
                else val))"
    if "descend data (p @ [k]) = Inr (YStr s)" for p k s
    using descend_resolve_nonempty[of "p @ [k]" env name data] that
    by (simp add: resolve_string_def Let_def split: key.splits)
  have leaf: "descend ?r p = Inr v"
    if "descend data p = Inr v \<and> (v = YNull \<or> (\<exists>b. v = YBool b) \<or> (\<exists>i. v = YInt i))" for p v
  proof -
    have "descend data p = Inr v" using that by simp
    from descend_resolve_any[OF this assms, of env name]
    obtain k where "descend ?r p = Inr (resolve_entry env name k v)" by auto
    then show ?thesis using that by auto
  qed
  have dicts: "\<exists>kvs'. descend ?r p = Inr (YDict kvs') \<and> map fst kvs' = map fst kvs"
    if h: "descend data p = Inr (YDict kvs)" for p kvs
  proof -
    obtain k where "descend ?r p = Inr (resolve_entry env name k (YDict kvs))"
      using descend_resolve_any[OF h assms, of env name] by auto
    then show ?thesis by (simp add: comp_def case_prod_unfold)
  qed
  have lists: "\<exists>xs'. descend ?r p = Inr (YList xs') \<and> length xs' = length xs"
    if h: "descend data p = Inr (YList xs)" for p xs
  proof -
    obtain k where "descend ?r p = Inr (resolve_entry env name k (YList xs))"
      using descend_resolve_any[OF h assms, of env name] by auto
    then show ?thesis by simp
  qed
  have repl: "str_replace (str_join ''{experiment_name}'' parts) ''{experiment_name}'' name
              = str_join name parts" if "\<forall>a\<in>set parts. CHR ''{'' \<notin> set a" for parts
    using replace_from_join[OF that] by (simp add: str_replace_def)
  show ?thesis using r strs leaf dicts lists repl by blast
qed


theorem resolve_strings_spec_witness:
  "resolve_strings \<lparr>expanduser = (\<lambda>s. ''/home/u'' @ drop 1 s), resolve = (\<lambda>s. ''/cwd/'' @ s)\<rparr>
     (YDict [(KStr ''name'', YStr ''{experiment_name}''),
             (KStr ''global_step'', YInt 3),
             (KStr ''summary'', YDict [(KStr ''path'', YStr ''~/logs/{experiment_name}'')]),
             (KStr ''checkpoint_path'', YStr ''ckpt/{experiment_name}/{experiment_name}''),
             (KStr ''paths'', YList [YStr ''{experiment_name}.h5'', YStr ''/abs'']),
             (KStr ''weights_path'', YStr ''/data/{experiment_name}'')])
     ''srgan''
   = Inr (YDict [(KStr ''name'', YStr ''srgan''),
             (KStr ''global_step'', YInt 3),
             (KStr ''summary'', YDict [(KStr ''path'', YStr ''/home/u/logs/srgan'')]),
             (KStr ''checkpoint_path'', YStr ''/cwd/ckpt/srgan/srgan''),
             (KStr ''paths'', YList [YStr ''srgan.h5'', YStr ''/abs'']),
             (KStr ''weights_path'', YStr ''/data/srgan'')])"
  using resolve_strings_spec
    [of "YDict [(KStr ''name'', YStr ''{experiment_name}''),
             (KStr ''global_step'', YInt 3),
             (KStr ''summary'', YDict [(KStr ''path'', YStr ''~/logs/{experiment_name}'')]),
             (KStr ''checkpoint_path'', YStr ''ckpt/{experiment_name}/{experiment_name}''),
             (KStr ''paths'', YList [YStr ''{experiment_name}.h5'', YStr ''/abs'']),
             (KStr ''weights_path'', YStr ''/data/{experiment_name}'')]"
        "\<lparr>expanduser = (\<lambda>s. ''/home/u'' @ drop 1 s), resolve = (\<lambda>s. ''/cwd/'' @ s)\<rparr>"
        "''srgan''"]
  by (simp add: resolve_strings_def resolve_string_def str_replace_def startswith_def
        is_absolute_def enumerate_eq_zip)

section \<open>Properties of load_experiment\<close>


lemma no_config_error_getitem [simp]: "\<not> config_error (getitem y k)"
  by (cases y; cases k) (auto simp: config_error_def and_then_def py_index_def split: option.splits)

lemma no_config_error_setitem [simp]: "\<not> config_error (setitem y k v)"
  by (cases y; cases k) (auto simp: config_error_def and_then_def py_index_def split: option.splits)

lemma no_config_error_dict_get [simp]: "\<not> config_error (dict_get y k v)"
  by (cases y) (auto simp: config_error_def)

lemma no_config_error_str_in [simp]: "\<not> config_error (str_in s y)"
  by (cases y) (auto simp: config_error_def)

lemma no_config_error_resolve [simp]: "\<not> config_error (resolve_strings env y n)"
  by (cases y) (auto simp: config_error_def resolve_strings_def)

lemma no_config_error_makedirs [simp]: "\<not> config_error (makedirs fs p)"
  by (auto simp: config_error_def makedirs_def split: yaml.splits option.splits node.splits)

lemma no_config_error_strategy [simp]: "\<not> config_error (choose_strategy gpus)"
  by (auto simp: config_error_def choose_strategy_def split: list.splits)

lemma config_error_simps [simp]:
  "config_error (Inl (ValueError m))" "\<not> config_error (Inr x)" "\<not> config_error (Inl TypeError)"
  "\<not> config_error (Inl YAMLError)"
  by (simp_all add: config_error_def)

lemma no_config_error_name_case [simp]:
  "\<not> config_error (case name of YStr n \<Rightarrow> resolve_strings env e n | _ \<Rightarrow> Inl TypeError)"
  by (cases name) simp_all

lemma no_config_error_scribe_case [simp]:
  "\<not> config_error (case p of YStr q \<Rightarrow> Inr (q, z) | _ \<Rightarrow> Inl TypeError)"
  by (cases p) simp_all











section \<open>Properties of save\<close>

lemma setitem_path_dict:
  assumes "setitem config (KStr s) v = Inr config'"
  shows "getitem config' (KStr s) = Inr v"
  using assms by (cases config) (auto simp: update_conv')

lemma setitem_other_key:
  assumes "setitem d k v = Inr d'" and "k' \<noteq> k" and "\<exists>kvs. d = YDict kvs"
  shows "getitem d' k' = getitem d k'"
  using assms by (auto simp: update_conv')

lemma setitem_is_dict:
  assumes "setitem d (KStr s) v = Inr d'"
  shows "\<exists>kvs. d = YDict kvs"
  using assms by (cases d) auto

lemma save_principals_writes:
  "save_principals ctx e step entries = (writes, r) \<Longrightarrow>
   \<forall>ev\<in>set writes. \<exists>file weights. ev = Save_weights file weights"
proof (induction entries arbitrary: writes r)
  case Nil
  then show ?case by simp
next
  case (Cons entry entries)
  obtain model_name config where entry: "entry = (model_name, config)" by (cases entry)
  obtain ws rr where rec: "save_principals ctx e step entries = (ws, rr)"
    by (cases "save_principals ctx e step entries")
  from Cons.IH[OF rec] Cons.prems entry rec show ?case
    by (auto simp: Let_def split: sum.splits prod.splits)
qed

lemma save_principals_entries:
  "save_principals ctx e step entries = (writes, Inr entries') \<Longrightarrow>
   map fst entries' = map fst entries \<and>
   (\<forall>(model_name, config)\<in>set entries'.
      \<exists>file weights. getitem config (KStr ''path'') = Inr (YStr file)
        \<and> checkpoint_file e (rjust (str_of_int step) 16 CHR ''0'' @ ''_''
                                @ format_key model_name @ ''.h5'') = Inr file
        \<and> Save_weights file weights \<in> set writes)"
proof (induction entries arbitrary: writes entries')
  case Nil
  then show ?case by simp
next
  case (Cons entry entries)
  obtain model_name config where entry: "entry = (model_name, config)" by (cases entry)
  obtain ws rr where rec: "save_principals ctx e step entries = (ws, rr)"
    by (cases "save_principals ctx e step entries")
  from Cons.prems entry rec obtain target weights config' rest' where
      f: "checkpoint_file e (rjust (str_of_int step) 16 CHR ''0'' @ ''_''
                                @ format_key model_name @ ''.h5'') = Inr target"
      and c: "setitem config (KStr ''path'') (YStr target) = Inr config'"
      and rr: "rr = Inr rest'"
      and w: "writes = Save_weights target weights # ws"
      and e': "entries' = (model_name, config') # rest'"
    by (auto simp: Let_def and_then_def split: sum.splits prod.splits)
  from Cons.IH[of ws rest'] rec rr have ih: "map fst rest' = map fst entries \<and>
   (\<forall>(model_name, config)\<in>set rest'.
      \<exists>target weights. getitem config (KStr ''path'') = Inr (YStr target)
        \<and> checkpoint_file e (rjust (str_of_int step) 16 CHR ''0'' @ ''_''
                                @ format_key model_name @ ''.h5'') = Inr target
        \<and> Save_weights target weights \<in> set ws)" by simp
  have "getitem config' (KStr ''path'') = Inr (YStr target)"
    using c by (rule setitem_path_dict)
  then show ?case using ih f w e' entry by fastforce
qed


lemma put_principals_read:
  assumes "put_principals e entries = Inr e2"
  shows "descend e2 [KStr ''models'', KStr ''principals''] = Inr (YDict entries)"
proof -
  from assms obtain m m' where m: "getitem e (KStr ''models'') = Inr m"
    and m': "setitem m (KStr ''principals'') (YDict entries) = Inr m'"
    and e2: "setitem e (KStr ''models'') m' = Inr e2"
    by (auto simp: put_principals_def and_then_Inr)
  have "getitem e2 (KStr ''models'') = Inr m'" using e2 by (rule setitem_path_dict)
  moreover have "getitem m' (KStr ''principals'') = Inr (YDict entries)"
    using m' by (rule setitem_path_dict)
  ultimately show ?thesis by (simp add: and_then_def)
qed

lemma put_principals_other:
  assumes "put_principals e entries = Inr e2" and "k \<noteq> KStr ''models''"
  shows "getitem e2 k = getitem e k"
proof -
  from assms(1) obtain m' where e2: "setitem e (KStr ''models'') m' = Inr e2"
    by (auto simp: put_principals_def and_then_Inr)
  show ?thesis using setitem_is_dict[OF e2] assms(2) by (intro setitem_other_key[OF e2]) auto
qed

lemma save_dump:
  assumes s: "save ctx = (writes, r)" and d: "Dump path snapshot \<in> set writes"
  shows "\<exists>step e1 entries pre entries'.
           global_step ctx = Inr step
         \<and> setitem (ctx_experiment ctx) (KStr ''global_step'') (YInt step) = Inr e1
         \<and> descend e1 [KStr ''models'', KStr ''principals''] = Inr (YDict entries)
         \<and> save_principals ctx e1 step entries = (pre, Inr entries')
         \<and> writes = pre @ [Dump path snapshot]
         \<and> descend snapshot [KStr ''models'', KStr ''principals''] = Inr (YDict entries')
         \<and> checkpoint_file snapshot (rjust (str_of_int step) 16 CHR ''0'' @ ''_checkpoint.yaml'')
               = Inr path
         \<and> r = Inr (ctx\<lparr>ctx_experiment := snapshot\<rparr>)
         \<and> getitem snapshot (KStr ''global_step'') = Inr (YInt step)"
proof -
  let ?e = "ctx_experiment ctx"
  let ?G = "and_then (global_step ctx) (\<lambda>step.
              and_then (getitem ?e (KStr ''checkpoint'')) (\<lambda>checkpoint.
              and_then (getitem checkpoint (KStr ''cycle'')) (\<lambda>cycle.
              and_then (off_cycle step cycle) (\<lambda>skip. Inr (step, skip)))))"
  from s d obtain step where G: "?G = Inr (step, False)"
    by (cases ?G) (auto simp: save_def Let_def split: if_splits)
  then have gs: "global_step ctx = Inr step" by (auto simp: and_then_Inr)
  let ?P = "and_then (setitem ?e (KStr ''global_step'') (YInt step)) (\<lambda>experiment.
                     and_then (getitem experiment (KStr ''models'')) (\<lambda>models_config.
                     and_then (getitem models_config (KStr ''principals'')) (\<lambda>principals_config.
                     and_then (items principals_config) (\<lambda>entries. Inr (experiment, entries)))))"
  from s d G obtain e1 entries where P: "?P = Inr (e1, entries)"
    by (cases ?P) (auto simp: save_def Let_def)
  then obtain pc where e1: "setitem ?e (KStr ''global_step'') (YInt step) = Inr e1"
    and pc: "descend e1 [KStr ''models'', KStr ''principals''] = Inr pc"
    and it: "items pc = Inr entries"
    by (auto simp: and_then_Inr)
  from it have "pc = YDict entries" by (cases pc) auto
  with pc have rd: "descend e1 [KStr ''models'', KStr ''principals''] = Inr (YDict entries)"
    by simp
  obtain pre rp where sp: "save_principals ctx e1 step entries = (pre, rp)"
    by (cases "save_principals ctx e1 step entries")
  have pre_only: "\<forall>ev\<in>set pre. \<exists>target weights. ev = Save_weights target weights"
    using save_principals_writes[OF sp] .
  then have nd: "Dump path snapshot \<notin> set pre" by auto
  from s d G P sp nd obtain entries' where rp: "rp = Inr entries'"
    by (cases rp) (auto simp: save_def Let_def)
  let ?Q = "and_then (put_principals e1 entries') (\<lambda>experiment.
                               and_then (getitem experiment (KStr ''optimizers'')) (\<lambda>optimizers_config.
                               and_then (items optimizers_config) (\<lambda>optimizer_entries.
                               and_then (ctx_get (ctx_optimizers ctx)) (\<lambda>opts.
                               and_then (all_results (map (snapshot_optimizer opts) optimizer_entries))
                                 (\<lambda>optimizer_entries.
                               and_then (setitem experiment (KStr ''optimizers'')
                                           (YDict optimizer_entries)) (\<lambda>experiment.
                               and_then (checkpoint_file experiment
                                           (rjust (str_of_int step) 16 CHR ''0'' @ ''_checkpoint.yaml''))
                                 (\<lambda>path. Inr (experiment, path))))))))"
  from s d G P sp rp nd have Q: "?Q = Inr (snapshot, path)"
    and w: "writes = pre @ [Dump path snapshot]"
    and r: "r = Inr (ctx\<lparr>ctx_experiment := snapshot\<rparr>)"
    by (cases ?Q; auto simp: save_def Let_def)+
  from Q obtain e2 oe where e2: "put_principals e1 entries' = Inr e2"
    and e3: "setitem e2 (KStr ''optimizers'') (YDict oe) = Inr snapshot"
    and cf: "checkpoint_file snapshot (rjust (str_of_int step) 16 CHR ''0'' @ ''_checkpoint.yaml'')
               = Inr path"
    by (auto simp: and_then_Inr)
  have "getitem snapshot (KStr ''models'') = getitem e2 (KStr ''models'')"
    using e3 setitem_is_dict[OF e3] by (intro setitem_other_key[OF e3]) auto
  then have "descend snapshot [KStr ''models'', KStr ''principals'']
               = descend e2 [KStr ''models'', KStr ''principals'']" by simp
  with put_principals_read[OF e2]
  have sn: "descend snapshot [KStr ''models'', KStr ''principals''] = Inr (YDict entries')"
    by simp
  have "getitem snapshot (KStr ''global_step'') = getitem e2 (KStr ''global_step'')"
    using e3 setitem_is_dict[OF e3] by (intro setitem_other_key[OF e3]) auto
  also have "\<dots> = getitem e1 (KStr ''global_step'')"
    using e2 by (rule put_principals_other) simp
  also have "\<dots> = Inr (YInt step)" using e1 by (rule setitem_path_dict)
  finally have st: "getitem snapshot (KStr ''global_step'') = Inr (YInt step)" .
  from gs e1 rd sp rp w cf r sn st show ?thesis by blast
qed


lemma written_keeps_files:
  "isfile fs p \<Longrightarrow> isfile (written fs evs) p"
proof (induction evs arbitrary: fs)
  case Nil
  then show ?case by simp
next
  case (Cons ev evs)
  show ?case
  proof (cases ev)
    case (Save_weights q w)
    have "isfile (fs(q \<mapsto> File (Weights w))) p" using Cons.prems by (simp add: isfile_def)
    from Cons.IH[OF this] show ?thesis using Save_weights by (simp add: fun_upd_def)
  next
    case (Dump q e)
    have "isfile (fs(q \<mapsto> File (Yaml e))) p" using Cons.prems by (simp add: isfile_def)
    from Cons.IH[OF this] show ?thesis using Dump by (simp add: fun_upd_def)
  qed
qed

lemma written_isfile:
  "Save_weights p w \<in> set evs \<Longrightarrow> isfile (written fs evs) p"
proof (induction evs arbitrary: fs)
  case Nil
  then show ?case by simp
next
  case (Cons ev evs)
  show ?case
  proof (cases "ev = Save_weights p w")
    case True
    have "isfile (fs(p \<mapsto> File (Weights w))) p" by (simp add: isfile_def)
    then show ?thesis using True by (simp add: written_keeps_files)
  next
    case False
    then have "Save_weights p w \<in> set evs" using Cons.prems by simp
    from Cons.IH[OF this] show ?thesis by (cases ev) simp_all
  qed
qed

lemma checkpoint_file_global_step:
  assumes "setitem e (KStr ''global_step'') v = Inr e1"
  shows "checkpoint_file e1 name = checkpoint_file e name"
proof -
  have "getitem e1 (KStr ''checkpoint'') = getitem e (KStr ''checkpoint'')"
    using setitem_is_dict[OF assms] by (intro setitem_other_key[OF assms]) auto
  then show ?thesis by (simp add: checkpoint_file_def)
qed

lemma descend_global_step:
  assumes "setitem e (KStr ''global_step'') v = Inr e1"
  shows "descend e1 (KStr ''models'' # ks) = descend e (KStr ''models'' # ks)"
proof -
  have "getitem e1 (KStr ''models'') = getitem e (KStr ''models'')"
    using setitem_is_dict[OF assms] by (intro setitem_other_key[OF assms]) auto
  then show ?thesis by simp
qed

text \<open>
  C4. Whenever \<open>save\<close> writes a descriptor, that write is its last one and all writes
  before it are weight files. The descriptor written lists the same principal models as
  the experiment did, and for each of them its \<open>path\<close> is the weight file named by the
  zero-padded step and the model name in the checkpoint directory, which was written
  before the descriptor and is a file on disk at the moment the descriptor is written.
\<close>

theorem save_weights_before_descriptor:
  assumes "save ctx = (writes, r)" and "writes = pre @ Dump path snapshot # post"
  shows "post = []
     \<and> (\<forall>ev\<in>set pre. \<exists>target weights. ev = Save_weights target weights)
     \<and> (\<exists>step before entries.
           global_step ctx = Inr step
         \<and> descend (ctx_experiment ctx) [KStr ''models'', KStr ''principals''] = Inr (YDict before)
         \<and> descend snapshot [KStr ''models'', KStr ''principals''] = Inr (YDict entries)
         \<and> map fst entries = map fst before
         \<and> (\<forall>(model_name, config)\<in>set entries.
               \<exists>target weights.
                 getitem config (KStr ''path'') = Inr (YStr target)
               \<and> checkpoint_file (ctx_experiment ctx)
                     (rjust (str_of_int step) 16 CHR ''0'' @ ''_'' @ format_key model_name @ ''.h5'')
                   = Inr target
               \<and> Save_weights target weights \<in> set pre
               \<and> isfile (written fs pre) target))"
proof -
  have d: "Dump path snapshot \<in> set writes" using assms(2) by simp
  from save_dump[OF assms(1) d] obtain step e1 before pre' entries where
        gs: "global_step ctx = Inr step"
    and e1: "setitem (ctx_experiment ctx) (KStr ''global_step'') (YInt step) = Inr e1"
    and rd: "descend e1 [KStr ''models'', KStr ''principals''] = Inr (YDict before)"
    and sp: "save_principals ctx e1 step before = (pre', Inr entries)"
    and w: "writes = pre' @ [Dump path snapshot]"
    and sn: "descend snapshot [KStr ''models'', KStr ''principals''] = Inr (YDict entries)"
    by blast
  have only: "\<forall>ev\<in>set pre'. \<exists>target weights. ev = Save_weights target weights"
    using save_principals_writes[OF sp] .
  then have nd: "Dump path snapshot \<notin> set pre'" by auto
  have eq: "pre @ Dump path snapshot # post = pre' @ [Dump path snapshot]"
    using assms(2) w by simp
  have pp: "pre = pre' \<and> post = []"
    using eq nd by (auto simp: append_eq_append_conv2 append_eq_Cons_conv Cons_eq_append_conv)
  have rd': "descend (ctx_experiment ctx) [KStr ''models'', KStr ''principals''] = Inr (YDict before)"
    using rd descend_global_step[OF e1, of "[KStr ''principals'']"] by (simp del: descend.simps)
  from save_principals_entries[OF sp] have
      keys: "map fst entries = map fst before"
    and each: "\<forall>(model_name, config)\<in>set entries.
      \<exists>target weights. getitem config (KStr ''path'') = Inr (YStr target)
        \<and> checkpoint_file e1 (rjust (str_of_int step) 16 CHR ''0'' @ ''_''
                                @ format_key model_name @ ''.h5'') = Inr target
        \<and> Save_weights target weights \<in> set pre'"
    by simp_all
  have each': "\<forall>(model_name, config)\<in>set entries.
               \<exists>target weights.
                 getitem config (KStr ''path'') = Inr (YStr target)
               \<and> checkpoint_file (ctx_experiment ctx)
                     (rjust (str_of_int step) 16 CHR ''0'' @ ''_'' @ format_key model_name @ ''.h5'')
                   = Inr target
               \<and> Save_weights target weights \<in> set pre
               \<and> isfile (written fs pre) target"
    using each pp checkpoint_file_global_step[OF e1] written_isfile[of _ _ pre fs]
    by (auto split: prod.splits) metis
  show ?thesis using pp only gs rd' sn keys each' by blast
qed

section \<open>Properties of the strategic models\<close>

lemma all_results_map:
  "\<forall>x\<in>set xs. f x = Inr (g x) \<Longrightarrow> all_results (map f xs) = Inr (map g xs)"
  by (induction xs) (simp_all add: and_then_def)

lemma run_v2_shards_ex:
  assumes "\<forall>x\<in>set (shards strategy data). fn x = Inr (g x)"
    and "shards strategy data \<noteq> []"
  shows "\<exists>r. experimental_run_v2 strategy fn data = Inr r
           \<and> components r = map g (shards strategy data)
           \<and> (\<forall>device. strategy = OneDeviceStrategy device \<longrightarrow> (\<exists>y. r = Local y))
           \<and> (\<forall>devices. strategy = MirroredStrategy devices \<longrightarrow> (\<exists>ys. r = PerReplica ys))"
proof (cases strategy)
  case (OneDeviceStrategy device)
  then show ?thesis using assms by (cases data) (simp_all add: and_then_def)
next
  case (MirroredStrategy devices)
  show ?thesis
  proof (cases data)
    case (Local x)
    then show ?thesis using assms MirroredStrategy
      using all_results_map[of "replicate (length devices) x" fn g]
      by (simp add: and_then_def)
  next
    case (PerReplica xs)
    then show ?thesis using assms MirroredStrategy all_results_map[of xs fn g]
      by (simp add: and_then_def)
  qed
qed

lemma run_v2_shards:
  assumes "\<forall>x\<in>set (shards strategy data). fn x = Inr (g x)"
    and "shards strategy data \<noteq> []"
  obtains r where "experimental_run_v2 strategy fn data = Inr r"
    and "components r = map g (shards strategy data)"
  using run_v2_shards_ex[OF assms] by (elim exE conjE)

lemma update_variables_length [simp]: "length (update_variables rule gs vars) = length vars"
  by (induction gs arbitrary: vars) auto

lemma update_variables_frame:
  "i \<notin> snd ` set gs \<Longrightarrow> update_variables rule gs vars ! i = vars ! i"
  by (induction gs arbitrary: vars) auto

lemma reduce_mean_components:
  fixes r :: "real dvalue"
  assumes "components r \<noteq> []"
  shows "reduce_mean r = sum_list (components r) / real (length (components r))"
  using assms by (cases r) simp_all

lemma components_map_dvalue [simp]: "components (map_dvalue f r) = map f (components r)"
  by (cases r) simp_all

lemma pick_in_range:
  assumes "- int (length inputs) \<le> i" and "i < int (length inputs)"
  shows "pick inputs (YInt i)
           = Inr (inputs ! nat (if i < 0 then int (length inputs) + i else i))"
  using assms by (simp add: pick_def py_index_def and_then_def)

lemma rearrange_reordered:
  assumes "\<forall>i\<in>set indices. - int (length inputs) \<le> i \<and> i < int (length inputs)"
  shows "rearrange inputs (YList (map YInt indices)) = Inr (reordered inputs indices)"
proof -
  have "\<forall>i\<in>set indices. (pick inputs \<circ> YInt) i
          = Inr (inputs ! nat (if i < 0 then int (length inputs) + i else i))"
    using assms by (simp add: pick_in_range)
  from all_results_map[OF this] show ?thesis
    by (simp add: rearrange_def reordered_def comp_def)
qed

lemma training_fn_result:
  assumes perm: "\<forall>inputs\<in>set (shards strategy data). rearrange inputs index_inputs = Inr (perm inputs)"
    and ne: "shards strategy data \<noteq> []"
    and nz: "num_replicas \<noteq> 0"
  shows "build_strategic_training_model tf strategy base_model index_inputs num_replicas
           optimizer vars data
         = (let gradients = sum_over_replicas
                  (map (\<lambda>inputs. tape_gradient tf
                          (\<lambda>vs. sum_list (call base_model vs (perm inputs))
                                   * (1 / real num_replicas))
                          vars (trainable_variables base_model))
                       (shards strategy data));
                count = reduce_mean (iterations optimizer)
            in Inr (sum_list (map (\<lambda>inputs. sum_list (call base_model vars (perm inputs))
                                                * (1 / real num_replicas))
                                 (shards strategy data))
                      / real (length (shards strategy data)),
                    optimizer\<lparr>iterations := map_dvalue Suc (iterations optimizer),
                              slots := update_slots tf (get_config optimizer) count
                                         (slots optimizer) gradients\<rparr>,
                    update_variables
                      (update_rule tf (get_config optimizer) count (slots optimizer))
                      (zip gradients (trainable_variables base_model)) vars))"
proof -
  let ?loss = "\<lambda>inputs vs. sum_list (call base_model vs (perm inputs)) * (1 / real num_replicas)"
  let ?g = "\<lambda>inputs. (?loss inputs vars,
              tape_gradient tf (?loss inputs) vars (trainable_variables base_model))"
  have step: "\<forall>inputs\<in>set (shards strategy data).
      train_one_step tf base_model index_inputs num_replicas vars inputs = Inr (?g inputs)"
    using perm nz by (simp add: train_one_step_def and_then_def Let_def)
  from run_v2_shards[OF step ne] obtain r where
      r: "experimental_run_v2 strategy
            (train_one_step tf base_model index_inputs num_replicas vars) data = Inr r"
    and c: "components r = map ?g (shards strategy data)" .
  have cl: "components (map_dvalue fst r) = map (\<lambda>inputs. ?loss inputs vars) (shards strategy data)"
    using c by (simp add: comp_def)
  have cg: "components (map_dvalue snd r)
        = map (\<lambda>inputs. tape_gradient tf (?loss inputs) vars (trainable_variables base_model))
              (shards strategy data)"
    using c by (simp add: comp_def)
  have len: "length (components r) = length (shards strategy data)"
    using c by simp
  have mean: "reduce_mean (map_dvalue fst r)
        = sum_list (map (\<lambda>inputs. ?loss inputs vars) (shards strategy data))
            / real (length (shards strategy data))"
  proof -
    have "components (map_dvalue fst r) \<noteq> []" using cl ne by simp
    from reduce_mean_components[OF this] show ?thesis using cl len by simp
  qed
  show ?thesis
    using r mean cg
    by (simp add: build_strategic_training_model_def and_then_def apply_gradients_def Let_def)
qed

text \<open>
  C1, as the code has it. Take integer input indices that are within the range of the
  tuple of every replica, a positive number of replicas, and an optimizer whose counter
  is below the largest \<open>int64\<close>. One call of the function
  \<open>build_strategic_training_model\<close> returns then succeeds, and its result is told in
  full. On each replica the loss is the sum of the elements of the model's loss on the
  inputs reordered by the indices, times \<open>1 / num_replicas\<close>; the value returned is the
  mean of these over the replicas. The gradients of the replicas are summed. The
  optimizer is the one given with its iteration counter raised by one on every replica
  and its slot variables updated once from the summed gradients; its configuration is
  as before. The variables are updated once with the summed gradients, and no variable
  outside the model's trainable ones changes. The optimizer's slot variables are state
  the call changes besides the parameters and the counter.
\<close>

theorem training_step:
  assumes idx: "index_inputs = YList (map YInt indices)"
    and rng: "\<forall>inputs\<in>set (shards strategy data). \<forall>i\<in>set indices.
                - int (length inputs) \<le> i \<and> i < int (length inputs)"
    and ne: "shards strategy data \<noteq> []"
    and nz: "num_replicas \<noteq> 0"
    and cnt: "\<forall>c\<in>set (components (iterations optimizer)). c < 2 ^ 63 - 1"
  shows "\<exists>loss gradients vars'.
       build_strategic_training_model tf strategy base_model index_inputs num_replicas
         optimizer vars data
       = Inr (loss,
              optimizer\<lparr>iterations := map_dvalue Suc (iterations optimizer),
                        slots := update_slots tf (get_config optimizer)
                                   (reduce_mean (iterations optimizer)) (slots optimizer)
                                   gradients\<rparr>,
              vars')
     \<and> loss = sum_list (map (\<lambda>inputs. sum_list (call base_model vars (reordered inputs indices))
                                          * (1 / real num_replicas))
                           (shards strategy data))
              / real (length (shards strategy data))
     \<and> gradients = sum_over_replicas
                     (map (\<lambda>inputs. tape_gradient tf
                             (\<lambda>vs. sum_list (call base_model vs (reordered inputs indices))
                                      * (1 / real num_replicas))
                             vars (trainable_variables base_model))
                          (shards strategy data))
     \<and> vars' = update_variables
                 (update_rule tf (get_config optimizer) (reduce_mean (iterations optimizer))
                    (slots optimizer))
                 (zip gradients (trainable_variables base_model)) vars
     \<and> length vars' = length vars
     \<and> (\<forall>i. i \<notin> set (trainable_variables base_model) \<longrightarrow> vars' ! i = vars ! i)"
proof -
  have perm: "\<forall>inputs\<in>set (shards strategy data).
                rearrange inputs index_inputs = Inr (reordered inputs indices)"
    using idx rng by (simp add: rearrange_reordered)
  have frame: "\<forall>i. i \<notin> set (trainable_variables base_model) \<longrightarrow>
      update_variables rule (zip gs (trainable_variables base_model)) vars ! i = vars ! i"
    for rule gs
    by (auto intro!: update_variables_frame dest: set_zip_rightD)
  show ?thesis
    unfolding training_fn_result[OF perm ne nz] Let_def
    using frame by simp
qed

lemma training_fn_counter:
  assumes "build_strategic_training_model tf strategy base_model index_inputs num_replicas
             optimizer vars data = Inr (loss, optimizer', vars')"
  shows "iterations optimizer' = map_dvalue Suc (iterations optimizer)
         \<and> get_config optimizer' = get_config optimizer"
  using assms
  by (auto simp: build_strategic_training_model_def and_then_Inr apply_gradients_def Let_def)

lemma validate_one_step_ok:
  assumes "rearrange inputs index_inputs = Inr new_inputs"
    and "pick inputs index_hd_images = Inr hd_images"
  shows "validate_one_step base_model index_inputs index_hd_images vars inputs
           = Inr (call base_model vars new_inputs, hd_images)"
  using assms by (simp add: validate_one_step_def and_then_def)

text \<open>
  C6, as the code has it. Under \<open>MirroredStrategy\<close> the function
  \<open>build_strategic_validation_model\<close> returns gives a per-replica value of model outputs
  and a per-replica value of reference tensors, one component per replica, and
  \<open>validate\<close> concatenates them; under \<open>OneDeviceStrategy\<close> it gives the bare pair of
  the output and the reference tensor, which \<open>validate\<close> takes as they are. The function
  returns no variables: it updates none.
\<close>

theorem validation_step:
  assumes "\<forall>inputs\<in>set (shards strategy data).
             rearrange inputs index_inputs = Inr (perm inputs)
           \<and> pick inputs index_hd_images = Inr (reference inputs)"
  shows "(\<forall>devices xs. strategy = MirroredStrategy devices \<and> data = PerReplica xs \<longrightarrow>
            build_strategic_validation_model strategy base_model index_inputs index_hd_images
              vars data
            = Inr (PerReplica (map (\<lambda>inputs. call base_model vars (perm inputs)) xs),
                   PerReplica (map reference xs))
          \<and> gather_images
                (PerReplica (map (\<lambda>inputs. call base_model vars (perm inputs)) xs),
                 PerReplica (map reference xs))
              = Inr (concat (map (\<lambda>inputs. call base_model vars (perm inputs)) xs),
                     concat (map reference xs)))
       \<and> (\<forall>device x. strategy = OneDeviceStrategy device \<and> data = Local x \<longrightarrow>
            build_strategic_validation_model strategy base_model index_inputs index_hd_images
              vars data
            = Inr (Local (call base_model vars (perm x)), Local (reference x))
          \<and> gather_images (Local (call base_model vars (perm x)), Local (reference x))
              = Inr (call base_model vars (perm x), reference x))"
proof (intro conjI allI impI)
  fix devices xs
  assume h: "strategy = MirroredStrategy devices \<and> data = PerReplica xs"
  have "\<forall>inputs\<in>set xs.
          validate_one_step base_model index_inputs index_hd_images vars inputs
            = Inr (call base_model vars (perm inputs), reference inputs)"
    using assms h by (auto intro!: validate_one_step_ok)
  from all_results_map[OF this] h
  show "build_strategic_validation_model strategy base_model index_inputs index_hd_images
              vars data
            = Inr (PerReplica (map (\<lambda>inputs. call base_model vars (perm inputs)) xs),
                   PerReplica (map reference xs))"
    by (simp add: build_strategic_validation_model_def and_then_def comp_def)
  show "gather_images
                (PerReplica (map (\<lambda>inputs. call base_model vars (perm inputs)) xs),
                 PerReplica (map reference xs))
              = Inr (concat (map (\<lambda>inputs. call base_model vars (perm inputs)) xs),
                     concat (map reference xs))"
    by simp
next
  fix device x
  assume h: "strategy = OneDeviceStrategy device \<and> data = Local x"
  have "validate_one_step base_model index_inputs index_hd_images vars x
            = Inr (call base_model vars (perm x), reference x)"
    using assms h by (auto intro!: validate_one_step_ok)
  with h show "build_strategic_validation_model strategy base_model index_inputs index_hd_images
              vars data
            = Inr (Local (call base_model vars (perm x)), Local (reference x))"
    by (simp add: build_strategic_validation_model_def and_then_def)
  show "gather_images (Local (call base_model vars (perm x)), Local (reference x))
              = Inr (call base_model vars (perm x), reference x)"
    by simp
qed

text \<open>
  With a single replica the response is not a sequence of one pair: \<open>validate\<close> has to
  tell the two shapes apart.
\<close>

theorem validation_single_replica_counterexample:
  "build_strategic_validation_model (OneDeviceStrategy ''GPU:0'') example_principal
     (YList [YInt 0]) (YInt 1) [2, 3] (Local [[1], [2]])
   = Inr (Local [3], Local [2])
   \<and> (Local [3], Local [2]) \<noteq> (PerReplica [[3 :: real]], PerReplica [[2 :: real]])"
  by (simp add: build_strategic_validation_model_def validate_one_step_def rearrange_def
        pick_def py_index_def and_then_def example_principal_def)

section \<open>The gate of the scheduled units\<close>

lemma for_each_invariant:
  assumes "for_each body xs s = Inr s'" and "P s"
    and "\<And>x t t'. x \<in> set xs \<Longrightarrow> P t \<Longrightarrow> body x t = Inr t' \<Longrightarrow> P t'"
  shows "P s'"
  using assms
proof (induction xs arbitrary: s)
  case Nil
  then show ?case by simp
next
  case (Cons x xs)
  from Cons.prems(1) obtain t where t: "body x s = Inr t" and r: "for_each body xs t = Inr s'"
    by (auto simp: and_then_Inr)
  have pt: "P t" using Cons.prems(3)[of x s t] Cons.prems(2) t by simp
  show ?case
  proof (rule Cons.IH[OF r pt])
    fix y u u'
    assume "y \<in> set xs" "P u" "body y u = Inr u'"
    then show "P u'" using Cons.prems(3)[of y u u'] by simp
  qed
qed







lemma save_result:
  assumes "save ctx = (writes, Inr ctx')"
  shows "(writes = [] \<and> ctx' = ctx)
       \<or> (\<exists>pre path snapshot. writes = pre @ [Dump path snapshot]
             \<and> ctx' = ctx\<lparr>ctx_experiment := snapshot\<rparr>)"
  using assms
  by (auto simp: save_def Let_def split: sum.splits prod.splits if_splits)



lemma train_with_offset:
  "train_with s name ctx = Inr ctx' \<Longrightarrow> ctx_global_step ctx' = ctx_global_step ctx"
  by (auto simp: train_with_def and_then_Inr split: if_splits prod.splits)

lemma validate_with_frame:
  "validate_with tf s validator ctx = Inr ctx' \<Longrightarrow>
   ctx_global_step ctx' = ctx_global_step ctx \<and> ctx_variables ctx' = ctx_variables ctx
   \<and> ctx_optimizers ctx' = ctx_optimizers ctx \<and> ctx_models ctx' = ctx_models ctx"
  by (auto simp: validate_with_def and_then_Inr split: if_splits prod.splits)

lemma train_offset:
  assumes "train ctx = Inr ctx'"
  shows "ctx_global_step ctx' = ctx_global_step ctx"
proof -
  from assms obtain s names where "for_each (train_with s) names ctx = Inr ctx'"
    by (auto simp: train_def and_then_Inr)
  then show ?thesis
    by (rule for_each_invariant[where P = "\<lambda>t. ctx_global_step t = ctx_global_step ctx"])
       (auto dest: train_with_offset)
qed

lemma validate_frame:
  assumes "validate tf ctx = Inr ctx'"
  shows "ctx_global_step ctx' = ctx_global_step ctx \<and> ctx_variables ctx' = ctx_variables ctx
   \<and> ctx_optimizers ctx' = ctx_optimizers ctx \<and> ctx_models ctx' = ctx_models ctx"
proof -
  from assms obtain s vs where "for_each (validate_with tf s) vs ctx = Inr ctx'"
    by (auto simp: validate_def and_then_Inr)
  then show ?thesis
    by (rule for_each_invariant[where P = "\<lambda>t. ctx_global_step t = ctx_global_step ctx
           \<and> ctx_variables t = ctx_variables ctx
           \<and> ctx_optimizers t = ctx_optimizers ctx \<and> ctx_models t = ctx_models ctx"])
       (auto dest: validate_with_frame)
qed

lemma load_experiment_offset:
  assumes "load_experiment env gpus fs path = Inr (ctx, fs')"
  shows "getitem (ctx_experiment ctx) (KStr ''global_step'') = Inr (ctx_global_step ctx)"
  using assms
  by (auto simp: load_experiment_def and_then_Inr
           split: option.splits node.splits content.splits if_splits)

lemma global_step_cong:
  "ctx_optimizers a = ctx_optimizers b \<Longrightarrow> ctx_global_step a = ctx_global_step b \<Longrightarrow>
   global_step a = global_step b"
  by (simp add: global_step_def)

text \<open>
  C10. The offset \<open>global_step\<close> adds is \<open>context['global_step']\<close>, which
  \<open>load_experiment\<close> sets to the descriptor's \<open>global_step\<close>. \<open>save\<close> leaves it and the
  optimizers as they are, so the global step reads the same after a checkpoint as before;
  when it writes, it stores the step in the descriptor only. \<open>train\<close> and \<open>validate\<close> do
  not change the offset either.
\<close>

theorem base_offset_fixed:
  "(load_experiment env gpus fs path = Inr (ctx0, fs') \<longrightarrow>
      getitem (ctx_experiment ctx0) (KStr ''global_step'') = Inr (ctx_global_step ctx0))
   \<and> (save ctx = (writes, Inr ctx') \<longrightarrow>
        ctx_global_step ctx' = ctx_global_step ctx
      \<and> ctx_optimizers ctx' = ctx_optimizers ctx
      \<and> global_step ctx' = global_step ctx
      \<and> (writes \<noteq> [] \<longrightarrow>
           (\<exists>step. global_step ctx = Inr step
              \<and> getitem (ctx_experiment ctx') (KStr ''global_step'') = Inr (YInt step))))
   \<and> (train ctx = Inr ctx1 \<longrightarrow> ctx_global_step ctx1 = ctx_global_step ctx)
   \<and> (validate tf ctx = Inr ctx2 \<longrightarrow> ctx_global_step ctx2 = ctx_global_step ctx)"
proof (intro conjI impI)
  assume "load_experiment env gpus fs path = Inr (ctx0, fs')"
  then show "getitem (ctx_experiment ctx0) (KStr ''global_step'') = Inr (ctx_global_step ctx0)"
    by (rule load_experiment_offset)
next
  assume s: "save ctx = (writes, Inr ctx')"
  from save_result[OF s] show a: "ctx_global_step ctx' = ctx_global_step ctx" by auto
  from save_result[OF s] show b: "ctx_optimizers ctx' = ctx_optimizers ctx" by auto
  from a b show "global_step ctx' = global_step ctx" by (intro global_step_cong)
  assume "writes \<noteq> []"
  with save_result[OF s] obtain pre path snapshot where
    w: "writes = pre @ [Dump path snapshot]" and c: "ctx' = ctx\<lparr>ctx_experiment := snapshot\<rparr>"
    by auto
  have "Dump path snapshot \<in> set writes" using w by simp
  from save_dump[OF s this] obtain step where "global_step ctx = Inr step"
    and "getitem snapshot (KStr ''global_step'') = Inr (YInt step)" by blast
  then show "\<exists>step. global_step ctx = Inr step
              \<and> getitem (ctx_experiment ctx') (KStr ''global_step'') = Inr (YInt step)"
    using c by simp
next
  assume "train ctx = Inr ctx1"
  then show "ctx_global_step ctx1 = ctx_global_step ctx" by (rule train_offset)
next
  assume "validate tf ctx = Inr ctx2"
  then show "ctx_global_step ctx2 = ctx_global_step ctx" using validate_frame by blast
qed

section \<open>Properties of build_models\<close>

lemma build_optimizer_counter:
  "build_optimizer tf strategy config = Inr optimizer \<Longrightarrow>
   iterations optimizer = new_counter strategy"
  by (auto simp: build_optimizer_def and_then_Inr Let_def split: if_splits)

lemma next_batch_Inr:
  "next_batch dss name = Inr (data, dss') \<longleftrightarrow>
     (\<exists>rest. map_of dss name = Some (data # rest) \<and> dss' = AList.update name rest dss)"
  by (auto simp: next_batch_def lookup_def and_then_def split: option.splits list.splits)

lemma ctx_get_Inr: "ctx_get entry = Inr v \<longleftrightarrow> entry = Some v"
  by (cases entry) (simp_all add: ctx_get_def)

lemma lookup_Inr: "lookup d k = Inr v \<longleftrightarrow> map_of d k = Some v"
  by (simp add: lookup_def split: option.splits)

lemma build_training_effect:
  assumes "build_training tf n (name, config) ctx = Inr ctx'"
  shows "\<exists>opts dss d data rest opt.
       ctx_optimizers ctx = Some opts \<and> ctx_datasets ctx = Some dss
     \<and> dataset_of config = Inr d \<and> map_of dss d = Some (data # rest)
     \<and> ctx_datasets ctx' = Some (AList.update d rest dss)
     \<and> ctx_optimizers ctx' = Some (AList.update name opt opts)
     \<and> iterations opt = map_dvalue Suc (new_counter (ctx_strategy ctx))
     \<and> ctx_strategy ctx' = ctx_strategy ctx
     \<and> ctx_experiment ctx' = ctx_experiment ctx
     \<and> ctx_global_step ctx' = ctx_global_step ctx"
proof -
  from assms obtain dataset_config dataset_name d dss opts optimizer model input_indices
      data dss' loss opt vars' ms model_key where
        dc: "getitem config (KStr ''dataset'') = Inr dataset_config"
    and dn: "getitem dataset_config (KStr ''name'') = Inr dataset_name"
    and d: "as_key dataset_name = Inr d"
    and dss: "ctx_datasets ctx = Some dss"
    and bo: "build_optimizer tf (ctx_strategy ctx) config = Inr optimizer"
    and opts: "ctx_optimizers ctx = Some opts"
    and nb: "next_batch dss d = Inr (data, dss')"
    and call: "build_strategic_training_model tf (ctx_strategy ctx) model input_indices n
                 optimizer (ctx_variables ctx) data = Inr (loss, opt, vars')"
    and ctx': "ctx' = ctx\<lparr>ctx_datasets := Some dss',
                 ctx_optimizers := Some (AList.update name opt opts),
                 ctx_variables := vars',
                 ctx_models := Some (ms\<lparr>strategic_extensions :=
                     AList.update model_key
                       (name, build_strategic_training_model tf (ctx_strategy ctx) model
                                input_indices n)
                       (strategic_extensions ms)\<rparr>)\<rparr>"
    by (auto simp: build_training_def and_then_Inr ctx_get_Inr Let_def split: prod.splits)
  from nb obtain rest where r: "map_of dss d = Some (data # rest)"
    and dss': "dss' = AList.update d rest dss"
    by (auto simp: next_batch_Inr)
  have it: "iterations opt = map_dvalue Suc (new_counter (ctx_strategy ctx))"
    using training_fn_counter[OF call] build_optimizer_counter[OF bo] by simp
  have dof: "dataset_of config = Inr d"
    using dc dn d by (simp add: dataset_of_def and_then_def)
  show ?thesis using opts dss dof r dss' it ctx' by auto
qed


lemma build_training_loop:
  assumes "for_each (build_training tf n) entries ctx = Inr ctx'"
    and "ctx_optimizers ctx = Some opts" and "ctx_datasets ctx = Some dss"
    and "distinct (map fst opts)"
  shows "\<exists>opts' dss'.
       ctx_optimizers ctx' = Some opts' \<and> ctx_datasets ctx' = Some dss'
     \<and> distinct (map fst opts')
     \<and> ctx_strategy ctx' = ctx_strategy ctx
     \<and> ctx_experiment ctx' = ctx_experiment ctx
     \<and> ctx_global_step ctx' = ctx_global_step ctx
     \<and> (\<forall>name\<in>fst ` set entries. \<exists>opt. map_of opts' name = Some opt
            \<and> iterations opt = map_dvalue Suc (new_counter (ctx_strategy ctx)))
     \<and> (\<forall>name. name \<notin> fst ` set entries \<longrightarrow> map_of opts' name = map_of opts name)
     \<and> (\<forall>(name, config)\<in>set entries. \<exists>d. dataset_of config = Inr d)
     \<and> (\<forall>d. map_of dss' d
            = map_option (drop (length (filter (\<lambda>(name, config). dataset_of config = Inr d)
                                          entries)))
                (map_of dss d))"
  using assms
proof (induction entries arbitrary: ctx opts dss)
  case Nil
  then show ?case by (simp add: option.map_ident)
next
  case (Cons entry entries)
  obtain name config where entry: "entry = (name, config)" by (cases entry)
  from Cons.prems(1) entry obtain ctx1 where
      b: "build_training tf n (name, config) ctx = Inr ctx1"
    and l: "for_each (build_training tf n) entries ctx1 = Inr ctx'"
    by (auto simp: and_then_Inr)
  from build_training_effect[OF b] Cons.prems(2,3) obtain d data rest opt where
        dof: "dataset_of config = Inr d"
    and md: "map_of dss d = Some (data # rest)"
    and dss1: "ctx_datasets ctx1 = Some (AList.update d rest dss)"
    and opts1: "ctx_optimizers ctx1 = Some (AList.update name opt opts)"
    and it: "iterations opt = map_dvalue Suc (new_counter (ctx_strategy ctx))"
    and st: "ctx_strategy ctx1 = ctx_strategy ctx"
    and ex: "ctx_experiment ctx1 = ctx_experiment ctx"
    and gs: "ctx_global_step ctx1 = ctx_global_step ctx"
    by auto
  have dist1: "distinct (map fst (AList.update name opt opts))"
    using Cons.prems(4) by (rule distinct_update)
  from Cons.IH[OF l opts1 dss1 dist1] obtain opts' dss' where
        o': "ctx_optimizers ctx' = Some opts'" and d': "ctx_datasets ctx' = Some dss'"
    and dist': "distinct (map fst opts')"
    and st': "ctx_strategy ctx' = ctx_strategy ctx1"
    and ex': "ctx_experiment ctx' = ctx_experiment ctx1"
    and gs': "ctx_global_step ctx' = ctx_global_step ctx1"
    and trained: "\<forall>name\<in>fst ` set entries. \<exists>opt. map_of opts' name = Some opt
            \<and> iterations opt = map_dvalue Suc (new_counter (ctx_strategy ctx1))"
    and others: "\<forall>k. k \<notin> fst ` set entries \<longrightarrow>
                   map_of opts' k = map_of (AList.update name opt opts) k"
    and bound: "\<forall>(name, config)\<in>set entries. \<exists>d. dataset_of config = Inr d"
    and ds: "\<forall>d'. map_of dss' d'
            = map_option (drop (length (filter (\<lambda>(name, config). dataset_of config = Inr d')
                                          entries)))
                (map_of (AList.update d rest dss) d')"
    by blast
  have a: "\<forall>k\<in>fst ` set (entry # entries). \<exists>opt. map_of opts' k = Some opt
            \<and> iterations opt = map_dvalue Suc (new_counter (ctx_strategy ctx))"
  proof
    fix k
    assume k: "k \<in> fst ` set (entry # entries)"
    show "\<exists>opt. map_of opts' k = Some opt
            \<and> iterations opt = map_dvalue Suc (new_counter (ctx_strategy ctx))"
    proof (cases "k \<in> fst ` set entries")
      case True
      then show ?thesis using trained st by auto
    next
      case False
      then have "k = name" using k entry by auto
      then have "map_of opts' k = Some opt" using others False by (simp add: update_conv')
      then show ?thesis using it by simp
    qed
  qed
  have b': "\<forall>k. k \<notin> fst ` set (entry # entries) \<longrightarrow> map_of opts' k = map_of opts k"
    using others entry by (auto simp: update_conv')
  have c: "\<forall>d'. map_of dss' d'
            = map_option (drop (length (filter (\<lambda>(name, config). dataset_of config = Inr d')
                                          (entry # entries))))
                (map_of dss d')"
  proof
    fix d'
    show "map_of dss' d'
            = map_option (drop (length (filter (\<lambda>(name, config). dataset_of config = Inr d')
                                          (entry # entries))))
                (map_of dss d')"
    proof (cases "d' = d")
      case True
      then show ?thesis using ds md dof entry by (simp add: update_conv')
    next
      case False
      then show ?thesis using ds dof entry by (auto simp: update_conv')
    qed
  qed
  have e: "\<forall>(name, config)\<in>set (entry # entries). \<exists>d. dataset_of config = Inr d"
    using bound dof entry by auto
  show ?case using o' d' dist' st st' ex ex' gs gs' a b' c e by auto
qed


lemma build_validation_frame:
  "build_validation validator ctx = Inr ctx' \<Longrightarrow>
   ctx_optimizers ctx' = ctx_optimizers ctx \<and> ctx_datasets ctx' = ctx_datasets ctx
   \<and> ctx_global_step ctx' = ctx_global_step ctx"
  by (auto simp: build_validation_def and_then_Inr Let_def)

lemma load_principal_case:
  assumes "(case y of YStr p \<Rightarrow> (if \<not> isfile fs p then Inr ctx else F p)
            | YList xs \<Rightarrow> Inl TypeError | YDict kvs \<Rightarrow> Inl TypeError
            | _ \<Rightarrow> Inr ctx) = Inr ctx'"
  shows "ctx' = ctx \<or> (\<exists>p. F p = Inr ctx')"
  using assms by (cases y) (auto split: if_splits)

lemma load_principal_frame:
  assumes "load_principal fs entry ctx = Inr ctx'"
  shows "ctx_optimizers ctx' = ctx_optimizers ctx \<and> ctx_datasets ctx' = ctx_datasets ctx
   \<and> ctx_global_step ctx' = ctx_global_step ctx"
proof -
  obtain name config where e: "entry = (name, config)" by (cases entry)
  from assms e obtain y where
    "(case y of YStr p \<Rightarrow>
            (if \<not> isfile fs p then Inr ctx
             else and_then (ctx_get (ctx_models ctx)) (\<lambda>ms.
                  and_then (lookup (principals ms) name) (\<lambda>model.
                  and_then (load_weights fs p model (ctx_variables ctx)) (\<lambda>vars.
                  Inr (ctx\<lparr>ctx_variables := vars\<rparr>)))))
        | YList xs \<Rightarrow> Inl TypeError | YDict kvs \<Rightarrow> Inl TypeError
        | _ \<Rightarrow> Inr ctx) = Inr ctx'"
    by (auto simp: load_principal_def and_then_Inr Let_def)
  from load_principal_case[OF this] show ?thesis by (auto simp: and_then_Inr)
qed

lemma reduce_mean_first_step:
  assumes "\<forall>devices. strategy = MirroredStrategy devices \<longrightarrow> devices \<noteq> []"
  shows "reduce_mean (map_dvalue Suc (new_counter strategy)) = 1"
  using assms by (cases strategy) (simp_all add: new_counter_def sum_list_replicate)

lemma components_first_step:
  "\<forall>c\<in>set (components (map_dvalue Suc (new_counter strategy))). c = 1"
  by (cases strategy) (simp_all add: new_counter_def)

lemma build_training_update:
  assumes "build_training tf n (name, config) ctx = Inr ctx'"
  shows "\<exists>ms ms' dss opts m model indices d data rest fresh loss opt.
       ctx_models ctx = Some ms \<and> ctx_datasets ctx = Some dss \<and> ctx_optimizers ctx = Some opts
     \<and> model_of config = Inr m \<and> map_of (extensions ms) m = Some model
     \<and> indices_of config = Inr indices
     \<and> dataset_of config = Inr d \<and> map_of dss d = Some (data # rest)
     \<and> build_optimizer tf (ctx_strategy ctx) config = Inr fresh
     \<and> build_strategic_training_model tf (ctx_strategy ctx) model indices n fresh
         (ctx_variables ctx) data = Inr (loss, opt, ctx_variables ctx')
     \<and> ctx_datasets ctx' = Some (AList.update d rest dss)
     \<and> ctx_optimizers ctx' = Some (AList.update name opt opts)
     \<and> ctx_models ctx' = Some ms' \<and> extensions ms' = extensions ms
     \<and> principals ms' = principals ms
     \<and> ctx_strategy ctx' = ctx_strategy ctx"
proof -
  from assms obtain model_name m dataset_config dataset_name d dss opts optimizer model
      input_indices data dss' loss opt vars' ms where
        mn: "getitem config (KStr ''extension_model'') = Inr model_name"
    and mk: "as_key model_name = Inr m"
    and ms: "ctx_models ctx = Some ms"
    and mo: "map_of (extensions ms) m = Some model"
    and dc: "getitem config (KStr ''dataset'') = Inr dataset_config"
    and dn: "getitem dataset_config (KStr ''name'') = Inr dataset_name"
    and d: "as_key dataset_name = Inr d"
    and dss: "ctx_datasets ctx = Some dss"
    and bo: "build_optimizer tf (ctx_strategy ctx) config = Inr optimizer"
    and opts: "ctx_optimizers ctx = Some opts"
    and ii: "getitem dataset_config (KStr ''input_indices'') = Inr input_indices"
    and nb: "next_batch dss d = Inr (data, dss')"
    and call: "build_strategic_training_model tf (ctx_strategy ctx) model input_indices n
                 optimizer (ctx_variables ctx) data = Inr (loss, opt, vars')"
    and ctx': "ctx' = ctx\<lparr>ctx_datasets := Some dss',
                 ctx_optimizers := Some (AList.update name opt opts),
                 ctx_variables := vars',
                 ctx_models := Some (ms\<lparr>strategic_extensions :=
                     AList.update m
                       (name, build_strategic_training_model tf (ctx_strategy ctx) model
                                input_indices n)
                       (strategic_extensions ms)\<rparr>)\<rparr>"
    by (auto simp: build_training_def and_then_Inr ctx_get_Inr lookup_Inr Let_def
             split: prod.splits)
  from nb obtain rest where r: "map_of dss d = Some (data # rest)"
    and dss': "dss' = AList.update d rest dss"
    by (auto simp: next_batch_Inr)
  have mof: "model_of config = Inr m"
    using mn mk by (simp add: model_of_def and_then_def)
  have iof: "indices_of config = Inr input_indices"
    using dc ii by (simp add: indices_of_def and_then_def)
  have dof: "dataset_of config = Inr d"
    using dc dn d by (simp add: dataset_of_def and_then_def)
  have v: "ctx_variables ctx' = vars'" using ctx' by simp
  show ?thesis
    using ms dss opts mof mo iof dof r bo call[folded v] dss' ctx' by auto
qed

lemma pulled_before_Suc:
  assumes "dataset_of config = Inr d"
  shows "pulled_before ((name, config) # entries) (Suc j) d'
           = (if d' = d then Suc (pulled_before entries j d') else pulled_before entries j d')"
  using assms by (auto simp: pulled_before_def)

lemma first_update_Suc:
  assumes dof: "dataset_of config = Inr d" and md: "map_of dss d = Some (data # rest)"
  shows "first_update tf strategy n exts dss ((name, config) # entries) (Suc j) vars
           = first_update tf strategy n exts (AList.update d rest dss) entries j vars"
proof -
  obtain name' config' where e: "entries ! j = (name', config')" by (cases "entries ! j")
  show ?thesis
  proof (cases "dataset_of config'")
    case (Inl err)
    then show ?thesis using e by (simp add: first_update_def and_then_def split: sum.splits)
  next
    case (Inr d')
    show ?thesis
    proof (cases "d' = d")
      case True
      then show ?thesis using e Inr md
        by (simp add: first_update_def and_then_def lookup_def update_conv'
              pulled_before_Suc[OF dof] split: sum.splits)
    next
      case False
      then show ?thesis using e Inr
        by (simp add: first_update_def and_then_def lookup_def update_conv'
              pulled_before_Suc[OF dof] split: sum.splits)
    qed
  qed
qed

lemma first_update_0:
  assumes "model_of config = Inr m" and "map_of exts m = Some model"
    and "indices_of config = Inr indices"
    and "dataset_of config = Inr d" and "map_of dss d = Some (data # rest)"
    and "build_optimizer tf strategy config = Inr fresh"
  shows "first_update tf strategy n exts dss ((name, config) # entries) 0 vars
           = build_strategic_training_model tf strategy model indices n fresh vars data"
  using assms by (simp add: first_update_def and_then_def lookup_def pulled_before_def)

lemma build_training_updates:
  assumes "for_each (build_training tf n) entries ctx = Inr ctx'"
    and "ctx_models ctx = Some ms" and "ctx_datasets ctx = Some dss"
    and "ctx_optimizers ctx = Some opts" and "distinct (map fst opts)"
  shows "\<exists>vss ms' opts'.
       length vss = Suc (length entries) \<and> vss ! 0 = ctx_variables ctx
     \<and> last vss = ctx_variables ctx'
     \<and> ctx_models ctx' = Some ms' \<and> extensions ms' = extensions ms
     \<and> principals ms' = principals ms
     \<and> ctx_optimizers ctx' = Some opts'
     \<and> (\<forall>i<length entries. \<exists>loss opt.
           first_update tf (ctx_strategy ctx) n (extensions ms) dss entries i (vss ! i)
             = Inr (loss, opt, vss ! Suc i)
         \<and> ((\<forall>later\<in>set (drop (Suc i) entries). fst later \<noteq> fst (entries ! i))
              \<longrightarrow> map_of opts' (fst (entries ! i)) = Some opt))"
  using assms
proof (induction entries arbitrary: ctx ms dss opts)
  case Nil
  then show ?case by (intro exI[of _ "[ctx_variables ctx]"]) simp
next
  case (Cons entry entries)
  obtain name config where entry: "entry = (name, config)" by (cases entry)
  from Cons.prems(1) entry obtain ctx1 where
      b: "build_training tf n (name, config) ctx = Inr ctx1"
    and l: "for_each (build_training tf n) entries ctx1 = Inr ctx'"
    by (auto simp: and_then_Inr)
  from build_training_update[OF b] Cons.prems(2,3,4)
  obtain ms1 m model indices d data rest fresh loss opt where
        mof: "model_of config = Inr m" and mo: "map_of (extensions ms) m = Some model"
    and iof: "indices_of config = Inr indices"
    and dof: "dataset_of config = Inr d" and md: "map_of dss d = Some (data # rest)"
    and bo: "build_optimizer tf (ctx_strategy ctx) config = Inr fresh"
    and call: "build_strategic_training_model tf (ctx_strategy ctx) model indices n fresh
                 (ctx_variables ctx) data = Inr (loss, opt, ctx_variables ctx1)"
    and dss1: "ctx_datasets ctx1 = Some (AList.update d rest dss)"
    and opts1: "ctx_optimizers ctx1 = Some (AList.update name opt opts)"
    and ms1: "ctx_models ctx1 = Some ms1" and ex1: "extensions ms1 = extensions ms"
    and pr1: "principals ms1 = principals ms"
    and st: "ctx_strategy ctx1 = ctx_strategy ctx"
    by auto
  have dist1: "distinct (map fst (AList.update name opt opts))"
    using Cons.prems(5) by (rule distinct_update)
  from Cons.IH[OF l ms1 dss1 opts1 dist1] obtain vss1 ms' opts' where
        len: "length vss1 = Suc (length entries)"
    and v0: "vss1 ! 0 = ctx_variables ctx1"
    and vl: "last vss1 = ctx_variables ctx'"
    and ms': "ctx_models ctx' = Some ms'" and ex': "extensions ms' = extensions ms1"
    and pr': "principals ms' = principals ms1"
    and o': "ctx_optimizers ctx' = Some opts'"
    and steps: "\<forall>i<length entries. \<exists>loss opt.
           first_update tf (ctx_strategy ctx1) n (extensions ms1) (AList.update d rest dss)
             entries i (vss1 ! i) = Inr (loss, opt, vss1 ! Suc i)
         \<and> ((\<forall>later\<in>set (drop (Suc i) entries). fst later \<noteq> fst (entries ! i))
              \<longrightarrow> map_of opts' (fst (entries ! i)) = Some opt)"
    by blast
  from build_training_loop[OF l opts1 dss1 dist1] o'
  have others: "\<forall>k. k \<notin> fst ` set entries \<longrightarrow>
                  map_of opts' k = map_of (AList.update name opt opts) k"
    by auto
  have ne1: "vss1 \<noteq> []" using len by auto
  let ?vss = "ctx_variables ctx # vss1"
  have first: "first_update tf (ctx_strategy ctx) n (extensions ms) dss (entry # entries) 0
                 (?vss ! 0) = Inr (loss, opt, ?vss ! Suc 0)"
    using first_update_0[OF mof mo iof dof md bo] call v0 entry by simp
  have reg: "(\<forall>later\<in>set (drop (Suc 0) (entry # entries)). fst later \<noteq> fst ((entry # entries) ! 0))
               \<longrightarrow> map_of opts' (fst ((entry # entries) ! 0)) = Some opt"
  proof
    assume "\<forall>later\<in>set (drop (Suc 0) (entry # entries)). fst later \<noteq> fst ((entry # entries) ! 0)"
    then have "name \<notin> fst ` set entries" using entry by auto
    with others have "map_of opts' name = map_of (AList.update name opt opts) name" by blast
    then show "map_of opts' (fst ((entry # entries) ! 0)) = Some opt"
      using entry by (simp add: update_conv')
  qed
  have all: "\<forall>i<length (entry # entries). \<exists>loss opt.
           first_update tf (ctx_strategy ctx) n (extensions ms) dss (entry # entries) i (?vss ! i)
             = Inr (loss, opt, ?vss ! Suc i)
         \<and> ((\<forall>later\<in>set (drop (Suc i) (entry # entries)). fst later \<noteq> fst ((entry # entries) ! i))
              \<longrightarrow> map_of opts' (fst ((entry # entries) ! i)) = Some opt)"
  proof (intro allI impI)
    fix i
    assume i: "i < length (entry # entries)"
    show "\<exists>loss opt.
           first_update tf (ctx_strategy ctx) n (extensions ms) dss (entry # entries) i (?vss ! i)
             = Inr (loss, opt, ?vss ! Suc i)
         \<and> ((\<forall>later\<in>set (drop (Suc i) (entry # entries)). fst later \<noteq> fst ((entry # entries) ! i))
              \<longrightarrow> map_of opts' (fst ((entry # entries) ! i)) = Some opt)"
    proof (cases i)
      case 0
      then show ?thesis using first reg by blast
    next
      case (Suc j)
      then have j: "j < length entries" using i by simp
      from steps j obtain loss' opt' where
          s: "first_update tf (ctx_strategy ctx1) n (extensions ms1) (AList.update d rest dss)
                entries j (vss1 ! j) = Inr (loss', opt', vss1 ! Suc j)"
        and r: "(\<forall>later\<in>set (drop (Suc j) entries). fst later \<noteq> fst (entries ! j))
                  \<longrightarrow> map_of opts' (fst (entries ! j)) = Some opt'"
        by blast
      have "first_update tf (ctx_strategy ctx) n (extensions ms) dss (entry # entries) i (?vss ! i)
              = Inr (loss', opt', ?vss ! Suc i)"
        using s Suc entry st ex1 first_update_Suc[OF dof md] by simp
      then show ?thesis using r Suc by auto
    qed
  qed
  have "length ?vss = Suc (length (entry # entries))" using len by simp
  moreover have "?vss ! 0 = ctx_variables ctx" by simp
  moreover have "last ?vss = ctx_variables ctx'" using vl ne1 by simp
  moreover have "extensions ms' = extensions ms" using ex' ex1 by simp
  moreover have "principals ms' = principals ms" using pr' pr1 by simp
  ultimately show ?case using ms' o' all by blast
qed

lemma build_validation_variables:
  assumes "build_validation validator ctx = Inr ctx'"
  shows "ctx_variables ctx' = ctx_variables ctx
       \<and> (\<exists>ms ms'. ctx_models ctx = Some ms \<and> ctx_models ctx' = Some ms'
            \<and> principals ms' = principals ms)"
  using assms by (auto simp: build_validation_def and_then_Inr ctx_get_Inr Let_def)

lemma load_principal_case_file:
  assumes "(case y of YStr p \<Rightarrow> (if \<not> isfile fs p then Inr ctx else F p)
            | YList xs \<Rightarrow> Inl TypeError | YDict kvs \<Rightarrow> Inl TypeError
            | _ \<Rightarrow> Inr ctx) = Inr ctx'"
  shows "ctx' = ctx \<or> (\<exists>p. isfile fs p \<and> F p = Inr ctx')"
  using assms by (cases y) (auto split: if_splits)

lemma load_principal_variables:
  assumes "load_principal fs entry ctx = Inr ctx'"
  shows "ctx_models ctx' = ctx_models ctx
       \<and> length (ctx_variables ctx') = length (ctx_variables ctx)
       \<and> (\<forall>ms i. ctx_models ctx = Some ms
            \<and> (\<forall>(name, model)\<in>set (principals ms). i \<notin> set (trainable_variables model))
            \<longrightarrow> ctx_variables ctx' ! i = ctx_variables ctx ! i)
       \<and> ((\<forall>p. \<not> isfile fs p) \<longrightarrow> ctx' = ctx)"
proof -
  obtain name config where e: "entry = (name, config)" by (cases entry)
  from assms e obtain y where
    "(case y of YStr p \<Rightarrow>
            (if \<not> isfile fs p then Inr ctx
             else and_then (ctx_get (ctx_models ctx)) (\<lambda>ms.
                  and_then (lookup (principals ms) name) (\<lambda>model.
                  and_then (load_weights fs p model (ctx_variables ctx)) (\<lambda>vars.
                  Inr (ctx\<lparr>ctx_variables := vars\<rparr>)))))
        | YList xs \<Rightarrow> Inl TypeError | YDict kvs \<Rightarrow> Inl TypeError
        | _ \<Rightarrow> Inr ctx) = Inr ctx'"
    by (auto simp: load_principal_def and_then_Inr Let_def)
  from load_principal_case_file[OF this]
  consider "ctx' = ctx"
    | p ms model vars where "isfile fs p" "ctx_models ctx = Some ms"
        "map_of (principals ms) name = Some model"
        "load_weights fs p model (ctx_variables ctx) = Inr vars"
        "ctx' = ctx\<lparr>ctx_variables := vars\<rparr>"
    by (auto simp: and_then_Inr ctx_get_Inr lookup_Inr)
  then show ?thesis
  proof cases
    case 1
    then show ?thesis by simp
  next
    case 2
    from 2(4) obtain ws where
      vars: "vars = update_variables (\<lambda>i old new. new) (zip ws (trainable_variables model))
                      (ctx_variables ctx)"
      by (auto simp: load_weights_def split: option.splits node.splits content.splits)
    have mem: "(name, model) \<in> set (principals ms)" using 2(3) by (rule map_of_SomeD)
    have "ctx_variables ctx' ! i = ctx_variables ctx ! i"
      if "\<forall>(name, model)\<in>set (principals ms). i \<notin> set (trainable_variables model)" for i
    proof -
      have "i \<notin> set (trainable_variables model)" using that mem by auto
      then have "i \<notin> snd ` set (zip ws (trainable_variables model))"
        by (auto dest: set_zip_rightD)
      then show ?thesis using 2(5) vars by (simp add: update_variables_frame)
    qed
    then show ?thesis using 2 vars by auto
  qed
qed

text \<open>
  C9. When \<open>build_models\<close> succeeds, every optimizer of the descriptor has made one
  update of the parameters, in the order of the descriptor. The variables start from the
  values the Model Provider gives; the \<open>i\<close>-th optimizer takes them as the optimizers
  before it have left them and leaves them as its training function returns them, called
  with a new optimizer on the next batch of its dataset; an optimizer whose name no
  later entry has is in the context as that call returned it. So every optimizer of the
  descriptor is in the context with its iteration counter raised once from the new
  counter, the counter is 1 on every replica, and the context holds no other optimizer;
  every dataset iterator has yielded as many batches as there are optimizers bound to
  it. After the last of these updates only the loading of weights changes the
  variables: no variable outside the principal models' trainable ones, and none at all
  when there is no file. With at least one optimizer the global step is then already
  the offset plus one.
\<close>

theorem build_models_first_step:
  assumes "build_models tf provider gpus fs ctx = Inr ctx'"
  shows "\<exists>entries dss dss' opts' exts prins vss.
      getitem (ctx_experiment ctx) (KStr ''optimizers'') = Inr (YDict entries)
    \<and> ctx_datasets ctx = Some dss \<and> ctx_datasets ctx' = Some dss'
    \<and> ctx_optimizers ctx' = Some opts'
    \<and> (\<forall>(name, config)\<in>set entries.
          \<exists>opt d. map_of opts' name = Some opt
            \<and> iterations opt = map_dvalue Suc (new_counter (ctx_strategy ctx))
            \<and> (\<forall>c\<in>set (components (iterations opt)). c = 1)
            \<and> dataset_of config = Inr d)
    \<and> (\<forall>(name, opt)\<in>set opts'. name \<in> fst ` set entries)
    \<and> (\<forall>d. map_of dss' d
           = map_option (drop (length (filter (\<lambda>(name, config). dataset_of config = Inr d)
                                         entries)))
               (map_of dss d))
    \<and> (entries \<noteq> []
         \<and> (\<forall>devices. ctx_strategy ctx = MirroredStrategy devices \<longrightarrow> devices \<noteq> [])
         \<and> ctx_global_step ctx = YInt base
         \<longrightarrow> global_step ctx' = Inr (1 + base))
    \<and> (\<exists>module parameters.
          descend (ctx_experiment ctx) [KStr ''models'', KStr ''name''] = Inr module
        \<and> descend (ctx_experiment ctx) [KStr ''models'', KStr ''parameters''] = Inr parameters
        \<and> provider module parameters = Inr (exts, prins, vss ! 0))
    \<and> length vss = Suc (length entries)
    \<and> (\<forall>i<length entries. \<exists>loss opt.
          first_update tf (ctx_strategy ctx) (length gpus) exts dss entries i (vss ! i)
            = Inr (loss, opt, vss ! Suc i)
        \<and> ((\<forall>later\<in>set (drop (Suc i) entries). fst later \<noteq> fst (entries ! i))
             \<longrightarrow> map_of opts' (fst (entries ! i)) = Some opt))
    \<and> length (ctx_variables ctx') = length (last vss)
    \<and> (\<forall>i. (\<forall>(name, model)\<in>set prins. i \<notin> set (trainable_variables model))
           \<longrightarrow> ctx_variables ctx' ! i = last vss ! i)
    \<and> ((\<forall>p. \<not> isfile fs p) \<longrightarrow> ctx_variables ctx' = last vss)"
proof -
  from assms obtain dss where dss: "ctx_datasets ctx = Some dss"
    by (cases "ctx_datasets ctx") (auto simp: build_models_def)
  from assms dss obtain mc oc module parameters exts prins vars entries c1 vs c2 ps where
        mc: "getitem (ctx_experiment ctx) (KStr ''models'') = Inr mc"
    and oc: "getitem (ctx_experiment ctx) (KStr ''optimizers'') = Inr oc"
    and nm: "getitem mc (KStr ''name'') = Inr module"
    and pa: "getitem mc (KStr ''parameters'') = Inr parameters"
    and pr: "provider module parameters = Inr (exts, prins, vars)"
    and it: "items oc = Inr entries"
    and l1: "for_each (build_training tf (length gpus)) entries
               (ctx\<lparr>ctx_models := Some \<lparr>extensions = exts, principals = prins,
                                             strategic_extensions = [],
                                             strategic_principals = []\<rparr>,
                       ctx_optimizers := Some [],
                       ctx_variables := vars\<rparr>) = Inr c1"
    and l2: "for_each build_validation vs c1 = Inr c2"
    and l3: "for_each (load_principal fs) ps c2 = Inr ctx'"
    by (auto simp: build_models_def and_then_Inr Let_def split: prod.splits)
  let ?ms0 = "\<lparr>extensions = exts, principals = prins,
               strategic_extensions = [], strategic_principals = []\<rparr>"
  let ?c0 = "ctx\<lparr>ctx_models := Some ?ms0, ctx_optimizers := Some [], ctx_variables := vars\<rparr>"
  from it have ocd: "oc = YDict entries" by (cases oc) auto
  have c0: "ctx_optimizers ?c0 = Some []" "ctx_datasets ?c0 = Some dss" "distinct (map fst [])"
    using dss by simp_all
  have m0: "ctx_models ?c0 = Some ?ms0" by simp
  from build_training_loop[OF l1 c0] obtain opts' dss' where
        o1: "ctx_optimizers c1 = Some opts'" and d1: "ctx_datasets c1 = Some dss'"
    and dist: "distinct (map fst opts')"
    and g1: "ctx_global_step c1 = ctx_global_step ctx"
    and trained: "\<forall>name\<in>fst ` set entries. \<exists>opt. map_of opts' name = Some opt
            \<and> iterations opt = map_dvalue Suc (new_counter (ctx_strategy ctx))"
    and others: "\<forall>name. name \<notin> fst ` set entries \<longrightarrow> map_of opts' name = None"
    and bound: "\<forall>(name, config)\<in>set entries. \<exists>d. dataset_of config = Inr d"
    and ds: "\<forall>d. map_of dss' d
            = map_option (drop (length (filter (\<lambda>(name, config). dataset_of config = Inr d)
                                          entries)))
                (map_of dss d)"
    by auto
  from build_training_updates[OF l1 m0 c0(2) c0(1) c0(3)] o1 obtain vss ms1 where
        len: "length vss = Suc (length entries)"
    and v0: "vss ! 0 = vars"
    and vl: "last vss = ctx_variables c1"
    and ms1: "ctx_models c1 = Some ms1" and pr1: "principals ms1 = prins"
    and steps: "\<forall>i<length entries. \<exists>loss opt.
          first_update tf (ctx_strategy ctx) (length gpus) exts dss entries i (vss ! i)
            = Inr (loss, opt, vss ! Suc i)
        \<and> ((\<forall>later\<in>set (drop (Suc i) entries). fst later \<noteq> fst (entries ! i))
             \<longrightarrow> map_of opts' (fst (entries ! i)) = Some opt)"
    by auto
  have f2: "ctx_optimizers c2 = ctx_optimizers c1 \<and> ctx_datasets c2 = ctx_datasets c1
            \<and> ctx_global_step c2 = ctx_global_step c1"
    using l2
    by (rule for_each_invariant[where P = "\<lambda>t. ctx_optimizers t = ctx_optimizers c1
           \<and> ctx_datasets t = ctx_datasets c1 \<and> ctx_global_step t = ctx_global_step c1"])
       (auto dest: build_validation_frame)
  have f3: "ctx_optimizers ctx' = ctx_optimizers c2 \<and> ctx_datasets ctx' = ctx_datasets c2
            \<and> ctx_global_step ctx' = ctx_global_step c2"
    using l3
    by (rule for_each_invariant[where P = "\<lambda>t. ctx_optimizers t = ctx_optimizers c2
           \<and> ctx_datasets t = ctx_datasets c2 \<and> ctx_global_step t = ctx_global_step c2"])
       (auto dest: load_principal_frame)
  have v2: "ctx_variables c2 = last vss
            \<and> (\<exists>ms. ctx_models c2 = Some ms \<and> principals ms = prins)"
    using l2
  proof (rule for_each_invariant[where P = "\<lambda>t. ctx_variables t = last vss
           \<and> (\<exists>ms. ctx_models t = Some ms \<and> principals ms = prins)"])
    show "ctx_variables c1 = last vss
            \<and> (\<exists>ms. ctx_models c1 = Some ms \<and> principals ms = prins)"
      using vl ms1 pr1 by simp
  next
    fix x t t'
    assume "x \<in> set vs"
      and p: "ctx_variables t = last vss
            \<and> (\<exists>ms. ctx_models t = Some ms \<and> principals ms = prins)"
      and s: "build_validation x t = Inr t'"
    from build_validation_variables[OF s] p
    show "ctx_variables t' = last vss
            \<and> (\<exists>ms. ctx_models t' = Some ms \<and> principals ms = prins)"
      by auto
  qed
  then obtain ms2 where ms2: "ctx_models c2 = Some ms2" and pr2: "principals ms2 = prins"
    by blast
  have v3: "ctx_models ctx' = Some ms2
            \<and> length (ctx_variables ctx') = length (last vss)
            \<and> (\<forall>i. (\<forall>(name, model)\<in>set prins. i \<notin> set (trainable_variables model))
                   \<longrightarrow> ctx_variables ctx' ! i = last vss ! i)
            \<and> ((\<forall>p. \<not> isfile fs p) \<longrightarrow> ctx_variables ctx' = last vss)"
    using l3
  proof (rule for_each_invariant[where P = "\<lambda>t. ctx_models t = Some ms2
            \<and> length (ctx_variables t) = length (last vss)
            \<and> (\<forall>i. (\<forall>(name, model)\<in>set prins. i \<notin> set (trainable_variables model))
                   \<longrightarrow> ctx_variables t ! i = last vss ! i)
            \<and> ((\<forall>p. \<not> isfile fs p) \<longrightarrow> ctx_variables t = last vss)"])
    show "ctx_models c2 = Some ms2
            \<and> length (ctx_variables c2) = length (last vss)
            \<and> (\<forall>i. (\<forall>(name, model)\<in>set prins. i \<notin> set (trainable_variables model))
                   \<longrightarrow> ctx_variables c2 ! i = last vss ! i)
            \<and> ((\<forall>p. \<not> isfile fs p) \<longrightarrow> ctx_variables c2 = last vss)"
      using v2 ms2 by simp
  next
    fix x t t'
    assume "x \<in> set ps"
      and p: "ctx_models t = Some ms2
            \<and> length (ctx_variables t) = length (last vss)
            \<and> (\<forall>i. (\<forall>(name, model)\<in>set prins. i \<notin> set (trainable_variables model))
                   \<longrightarrow> ctx_variables t ! i = last vss ! i)
            \<and> ((\<forall>p. \<not> isfile fs p) \<longrightarrow> ctx_variables t = last vss)"
      and s: "load_principal fs x t = Inr t'"
    from load_principal_variables[OF s] p pr2
    show "ctx_models t' = Some ms2
            \<and> length (ctx_variables t') = length (last vss)
            \<and> (\<forall>i. (\<forall>(name, model)\<in>set prins. i \<notin> set (trainable_variables model))
                   \<longrightarrow> ctx_variables t' ! i = last vss ! i)
            \<and> ((\<forall>p. \<not> isfile fs p) \<longrightarrow> ctx_variables t' = last vss)"
      by auto
  qed
  have prov: "\<exists>module parameters.
          descend (ctx_experiment ctx) [KStr ''models'', KStr ''name''] = Inr module
        \<and> descend (ctx_experiment ctx) [KStr ''models'', KStr ''parameters''] = Inr parameters
        \<and> provider module parameters = Inr (exts, prins, vss ! 0)"
    using mc nm pa pr v0 by (auto simp: and_then_def)
  have o': "ctx_optimizers ctx' = Some opts'" and d': "ctx_datasets ctx' = Some dss'"
    and g': "ctx_global_step ctx' = ctx_global_step ctx"
    using o1 d1 g1 f2 f3 by simp_all
  have each: "\<forall>(name, config)\<in>set entries.
          \<exists>opt d. map_of opts' name = Some opt
            \<and> iterations opt = map_dvalue Suc (new_counter (ctx_strategy ctx))
            \<and> (\<forall>c\<in>set (components (iterations opt)). c = 1)
            \<and> dataset_of config = Inr d"
  proof (clarify)
    fix name config
    assume m: "(name, config) \<in> set entries"
    then have "name \<in> fst ` set entries" by force
    with trained obtain opt where
      opt: "map_of opts' name = Some opt"
        "iterations opt = map_dvalue Suc (new_counter (ctx_strategy ctx))" by blast
    from bound m obtain d where d: "dataset_of config = Inr d" by auto
    have "\<forall>c\<in>set (components (iterations opt)). c = 1"
      unfolding opt(2) by (rule components_first_step)
    with opt d show "\<exists>opt d. map_of opts' name = Some opt
            \<and> iterations opt = map_dvalue Suc (new_counter (ctx_strategy ctx))
            \<and> (\<forall>c\<in>set (components (iterations opt)). c = 1)
            \<and> dataset_of config = Inr d" by blast
  qed
  have only: "\<forall>(name, opt)\<in>set opts'. name \<in> fst ` set entries"
  proof (clarify)
    fix name opt
    assume "(name, opt) \<in> set opts'"
    then have "map_of opts' name = Some opt" using dist by simp
    then show "name \<in> fst ` set entries" using others by force
  qed
  have step: "global_step ctx' = Inr (1 + base)"
    if h: "entries \<noteq> []
         \<and> (\<forall>devices. ctx_strategy ctx = MirroredStrategy devices \<longrightarrow> devices \<noteq> [])
         \<and> ctx_global_step ctx = YInt base"
  proof -
    obtain name config where "(name, config) \<in> set entries" using h by (cases entries) auto
    with each have "map_of opts' name \<noteq> None" by auto
    then have ne: "opts' \<noteq> []" by auto
    let ?f = "\<lambda>(name, opt). int (reduce_mean (iterations opt))"
    have all_one: "\<forall>x\<in>set opts'. ?f x = 1"
    proof
      fix x
      assume x: "x \<in> set opts'"
      obtain name opt where xe: "x = (name, opt)" by (cases x)
      have mo: "map_of opts' name = Some opt" using x xe dist by simp
      from only x xe have "name \<in> fst ` set entries" by auto
      with trained mo have "iterations opt = map_dvalue Suc (new_counter (ctx_strategy ctx))"
        by auto
      then show "?f x = 1"
        using reduce_mean_first_step[of "ctx_strategy ctx"] h xe by simp
    qed
    have sub: "?f ` set opts' \<subseteq> {1}" using all_one by blast
    have nonempty: "?f ` set opts' \<noteq> {}" using ne by simp
    have one: "?f ` set opts' = {1}"
      using sub nonempty unfolding subset_singleton_iff by (elim disjE) simp_all
    have "most_active 0 opts' = 1"
      using most_active_nonempty[OF ne] one by simp
    then show ?thesis using o' g' h
      by (simp add: global_step_def ctx_get_def and_then_def)
  qed
  have vars: "length (ctx_variables ctx') = length (last vss)"
    and frame: "\<forall>i. (\<forall>(name, model)\<in>set prins. i \<notin> set (trainable_variables model))
                   \<longrightarrow> ctx_variables ctx' ! i = last vss ! i"
    and fresh: "(\<forall>p. \<not> isfile fs p) \<longrightarrow> ctx_variables ctx' = last vss"
    using v3 by simp_all
  have a: "getitem (ctx_experiment ctx) (KStr ''optimizers'') = Inr (YDict entries)"
    using oc ocd by simp
  show ?thesis
    apply (rule exI[of _ entries], rule exI[of _ dss], rule exI[of _ dss'],
           rule exI[of _ opts'], rule exI[of _ exts], rule exI[of _ prins],
           rule exI[of _ vss])
    apply (intro conjI)
    using a dss d' o' each only ds step prov len steps vars frame fresh
    by blast+
qed


section \<open>The example session, run\<close>

lemma training_fn_apply:
  "build_strategic_training_model tf strategy base_model index_inputs num_replicas
     optimizer vars data =
   and_then (experimental_run_v2 strategy
               (train_one_step tf base_model index_inputs num_replicas vars) data)
     (\<lambda>results.
        let (optimizer', vars') =
              apply_gradients tf optimizer (map_dvalue snd results)
                (trainable_variables base_model) vars;
            losses = map_dvalue fst results
        in Inr (reduce_mean losses, optimizer', vars'))"
  by (simp add: build_strategic_training_model_def)

lemma validation_fn_apply:
  "build_strategic_validation_model strategy base_model index_inputs index_hd_images vars data =
   and_then (experimental_run_v2 strategy
               (validate_one_step base_model index_inputs index_hd_images vars) data)
     (\<lambda>results. Inr (regroup results))"
  by (simp add: build_strategic_validation_model_def)

lemma replicate_numeral: "replicate (numeral k) x = x # replicate (pred_numeral k) x"
  by (simp add: numeral_eq_Suc)

lemma example_build:
  "build_models example_tensorflow example_provider [''GPU:0'', ''GPU:1''] Map.empty
     example_loaded = Inr example_built"
  by (simp add: build_models_def example_loaded_def example_built_def example_experiment_def
      and_then_def example_provider_def build_training_def lookup_def ctx_get_def
      build_optimizer_def lower_char_def new_counter_def example_tensorflow_def
      training_fn_apply next_batch_def train_one_step_def rearrange_def pick_def py_index_def
      example_extension_def example_principal_def apply_gradients_def build_validation_def
      load_principal_def isfile_def Let_def numeral_2_eq_2[symmetric] replicate_numeral)

lemma example_train: "train example_built = Inr example_trained"
  by (simp add: train_def train_with_def global_step_def off_cycle_def py_mod_def
      example_trained_def example_loaded_def example_built_def example_experiment_def
      and_then_def lookup_def ctx_get_def example_tensorflow_def
      training_fn_apply next_batch_def train_one_step_def rearrange_def pick_def py_index_def
      example_extension_def example_principal_def apply_gradients_def Let_def numeral_2_eq_2[symmetric] replicate_numeral)


lemma example_validate: "validate example_tensorflow example_trained = Inr example_validated"
  by (simp add: validate_def validate_with_def global_step_def off_cycle_def py_mod_def
      example_validated_def example_trained_def example_loaded_def example_built_def
      example_experiment_def and_then_def lookup_def ctx_get_def example_tensorflow_def
      validation_fn_apply next_batch_def validate_one_step_def rearrange_def pick_def
      py_index_def example_extension_def example_principal_def Let_def numeral_2_eq_2[symmetric] replicate_numeral)

lemma example_save:
  "save example_validated
     = ([Save_weights ''/ckpt/0000000000000002_generator.h5'' [3],
         Dump ''/ckpt/0000000000000002_checkpoint.yaml'' example_snapshot],
        Inr example_saved)"
  by (simp add: save_def global_step_def off_cycle_def py_mod_def checkpoint_file_def
      example_saved_def example_snapshot_def
      example_validated_def example_trained_def example_loaded_def example_built_def
      example_experiment_def and_then_def lookup_def ctx_get_def put_principals_def
      snapshot_optimizer_def rjust_def str_of_int_def os_path_join_def startswith_def
      endswith_def example_principal_def Let_def numeral_2_eq_2[symmetric] replicate_numeral)

section \<open>The properties on the example session\<close>

theorem training_step_witness:
  "build_strategic_training_model example_tensorflow (MirroredStrategy [''GPU:0'', ''GPU:1''])
     example_residual (YList [YInt (- 1), YInt 0]) 2
     \<lparr>iterations = PerReplica [0, 0], get_config = YDict [], slots = []\<rparr> [2, 3]
     (PerReplica [[[1, 2], [3, 5]], [[4], [6]]])
   = Inr (21 / 4, \<lparr>iterations = PerReplica [1, 1], get_config = YDict [], slots = [7 / 10]\<rparr>,
          [- 5, 3])"
  using training_step
    [where index_inputs = "YList [YInt (- 1), YInt 0]" and indices = "[- 1, 0]"
       and strategy = "MirroredStrategy [''GPU:0'', ''GPU:1'']"
       and data = "PerReplica [[[1, 2], [3, 5]], [[4], [6]]]"
       and num_replicas = 2 and tf = example_tensorflow and base_model = example_residual
       and optimizer = "\<lparr>iterations = PerReplica [0, 0], get_config = YDict [], slots = []\<rparr>"
       and vars = "[2, 3]"]
  by (auto simp: reordered_def example_residual_def example_tensorflow_def
        numeral_2_eq_2[symmetric])

text \<open>
  The claim as the specification words it fails: the call changes the optimizer's slot
  variables too. On one device, an optimizer that has made four updates and holds the
  slot value 1 comes out of the call with the slot value \<open>17 / 10\<close>.
\<close>

theorem training_step_slots_counterexample:
  "build_strategic_training_model example_tensorflow (OneDeviceStrategy ''GPU:0'')
     example_residual (YList [YInt 1, YInt 0]) 1
     \<lparr>iterations = Local 4, get_config = YDict [], slots = [1]\<rparr> [2, 3]
     (Local [[1, 2], [3, 5]])
   = Inr (13, \<lparr>iterations = Local 5, get_config = YDict [], slots = [17 / 10]\<rparr>, [- 6, 3])
   \<and> slots \<lparr>iterations = Local 5, get_config = YDict [], slots = [17 / 10]\<rparr>
       \<noteq> slots \<lparr>iterations = Local 4, get_config = YDict [], slots = [1]\<rparr>"
  by (simp add: training_fn_apply experimental_run_v2.simps train_one_step_def rearrange_def
      pick_def py_index_def and_then_def apply_gradients_def example_residual_def
      example_tensorflow_def Let_def)

theorem validation_step_witness:
  "build_strategic_validation_model (MirroredStrategy [''GPU:0'', ''GPU:1''])
     example_principal (YList [YInt 0]) (YInt 1) [- 17 / 2, 3]
     (PerReplica [[[1], [2]], [[3], [4]]])
   = Inr (PerReplica [[3], [9]], PerReplica [[2], [4]])
   \<and> gather_images (PerReplica [[3], [9]], PerReplica [[2], [4]]) = Inr ([3, 9], [2, 4])
   \<and> build_strategic_validation_model (OneDeviceStrategy ''GPU:0'')
     example_principal (YList [YInt 0]) (YInt 1) [- 17 / 2, 3] (Local [[1], [2]])
   = Inr (Local [3], Local [2])"
  using validation_step
    [of "MirroredStrategy [''GPU:0'', ''GPU:1'']" "PerReplica [[[1], [2]], [[3], [4]]]"
        "YList [YInt 0]" "\<lambda>inputs. [inputs ! 0]" "YInt 1" "\<lambda>inputs. inputs ! 1"
        example_principal "[- 17 / 2, 3]"]
    validation_step
    [of "OneDeviceStrategy ''GPU:0''" "Local [[1], [2]]"
        "YList [YInt 0]" "\<lambda>inputs. [inputs ! 0]" "YInt 1" "\<lambda>inputs. inputs ! 1"
        example_principal "[- 17 / 2, 3]"]
  by (simp add: rearrange_def pick_def py_index_def and_then_def example_principal_def)

theorem save_weights_before_descriptor_witness:
  "fst (save example_validated)
     = [Save_weights ''/ckpt/0000000000000002_generator.h5'' [3]]
       @ Dump ''/ckpt/0000000000000002_checkpoint.yaml'' example_snapshot # []
   \<and> descend example_snapshot [KStr ''models'', KStr ''principals'', KStr ''generator'', KStr ''path'']
       = Inr (YStr ''/ckpt/0000000000000002_generator.h5'')
   \<and> isfile (written Map.empty [Save_weights ''/ckpt/0000000000000002_generator.h5'' [3]])
         ''/ckpt/0000000000000002_generator.h5''"
  using save_weights_before_descriptor
    [OF example_save, of "[Save_weights ''/ckpt/0000000000000002_generator.h5'' [3]]"
        "''/ckpt/0000000000000002_checkpoint.yaml''" example_snapshot "[]" Map.empty]
  by (simp add: example_save example_snapshot_def and_then_def isfile_def)


theorem base_offset_fixed_witness:
  "ctx_global_step example_saved = YInt 0
   \<and> global_step example_saved = Inr 2
   \<and> global_step example_validated = Inr 2
   \<and> getitem (ctx_experiment example_saved) (KStr ''global_step'') = Inr (YInt 2)
   \<and> ctx_global_step example_trained = YInt 0"
  using base_offset_fixed
    [of "\<lparr>expanduser = (\<lambda>s. s), resolve = (\<lambda>s. s)\<rparr>" "[]" Map.empty "[]" example_loaded
        Map.empty example_validated
        "[Save_weights ''/ckpt/0000000000000002_generator.h5'' [3],
          Dump ''/ckpt/0000000000000002_checkpoint.yaml'' example_snapshot]"
        example_saved example_trained example_tensorflow example_validated]
    example_save
  by (simp add: example_saved_def example_validated_def example_trained_def example_built_def
        example_loaded_def example_snapshot_def global_step_def ctx_get_def and_then_def
        numeral_2_eq_2[symmetric])

theorem build_models_first_step_witness:
  "build_models example_tensorflow example_provider [''GPU:0'', ''GPU:1''] Map.empty
     example_loaded = Inr example_built
   \<and> ctx_optimizers example_built
       = Some [(KStr ''adam_g'',
                \<lparr>iterations = PerReplica [1, 1], get_config = YDict [], slots = [3 / 4]\<rparr>)]
   \<and> global_step example_built = Inr 1
   \<and> ctx_datasets example_built
       = Some [(KStr ''train'', drop 1 [PerReplica [[[1, 2], [3]], [[4], [5]]],
                                        PerReplica [[[1], [1]], [[2], [2]]],
                                        PerReplica [[[0], [1]], [[1], [0]]]]),
               (KStr ''valid'', [PerReplica [[[1], [2]], [[3], [4]]]])]
   \<and> ctx_variables example_built = [- 11 / 2, 3]"
  using build_models_first_step[OF example_build, of 0] example_build
  by (simp add: example_built_def example_loaded_def global_step_def ctx_get_def and_then_def
        numeral_2_eq_2[symmetric])

end
